theory Spec2Isabelle
  imports Main
begin

section \<open>JavaScript strings\<close>

text \<open>
  A JavaScript string is a sequence of UTF-16 code units; \<open>length\<close> counts code units.
  The pattern table of the detector contains the code unit U+2019 (right single quotation
  mark), which is not a byte, so code units are natural numbers here and \<open>js\<close> embeds an
  ASCII literal.
\<close>

type_synonym jsstring = "nat list"

definition js :: "string \<Rightarrow> jsstring" where
  "js s = map of_char s"

text \<open>
  \<open>String.prototype.trim\<close> removes WhiteSpace and LineTerminator code units at both ends:
  TAB, LF, VT, FF, CR, SP, NBSP, U+1680, U+2000..U+200A, U+2028, U+2029, U+202F, U+205F,
  U+3000 and U+FEFF.
\<close>

definition isWhiteSpace :: "nat \<Rightarrow> bool" where
  "isWhiteSpace c =
     (c = 9 \<or> c = 10 \<or> c = 11 \<or> c = 12 \<or> c = 13 \<or> c = 32 \<or> c = 160 \<or> c = 5760
      \<or> (8192 \<le> c \<and> c \<le> 8202) \<or> c = 8232 \<or> c = 8233 \<or> c = 8239 \<or> c = 8287
      \<or> c = 12288 \<or> c = 65279)"

definition trim :: "jsstring \<Rightarrow> jsstring" where
  "trim s = rev (dropWhile isWhiteSpace (rev (dropWhile isWhiteSpace s)))"

text \<open>Truthiness of a \<open>string | null\<close> value: \<open>null\<close> and the empty string are falsy.\<close>

fun truthy :: "jsstring option \<Rightarrow> bool" where
  "truthy None = False"
| "truthy (Some s) = (s \<noteq> [])"

text \<open>\<open>v || d\<close> on a \<open>string | null\<close> value.\<close>

fun orElse :: "jsstring option \<Rightarrow> jsstring \<Rightarrow> jsstring" where
  "orElse None d = d"
| "orElse (Some s) d = (if s = [] then d else s)"

section \<open>The regular expressions of the pattern table\<close>

text \<open>
  The five expressions of \<open>SIGN_IN_BLOCK_PATTERNS\<close> are built from literal characters and
  one optional character class (\<open>['\<dots>`]?\<close>), all with the flag \<open>i\<close> and without the flags
  \<open>g\<close>, \<open>y\<close> and \<open>u\<close>: \<open>test\<close> is stateless and searches for a match starting anywhere.

  With the flag \<open>i\<close> and no flag \<open>u\<close>, two code units match when their Canonicalize values
  agree. Canonicalize maps an ASCII lower-case letter to its upper-case letter, and never
  maps a code unit from 128 on to one below 128. The pattern characters of the table are
  ASCII characters and U+2019, which is the upper-case form of no other code unit, so for
  comparisons against these characters the ASCII mapping below is the full one.
\<close>

definition canonicalize :: "nat \<Rightarrow> nat" where
  "canonicalize c = (if 97 \<le> c \<and> c \<le> 122 then c - 32 else c)"

datatype atom = Lit nat | OptOneOf "nat list"

definition lits :: "string \<Rightarrow> atom list" where
  "lits s = map Lit (js s)"

fun match_here :: "atom list \<Rightarrow> jsstring \<Rightarrow> bool" where
  "match_here [] s = True"
| "match_here (Lit c # as) [] = False"
| "match_here (Lit c # as) (x # s) = (canonicalize x = canonicalize c \<and> match_here as s)"
| "match_here (OptOneOf cs # as) [] = match_here as []"
| "match_here (OptOneOf cs # as) (x # s) =
     ((canonicalize x \<in> canonicalize ` set cs \<and> match_here as s) \<or> match_here as (x # s))"

fun re_test :: "atom list \<Rightarrow> jsstring \<Rightarrow> bool" where
  "re_test p [] = match_here p []"
| "re_test p (x # s) = (match_here p (x # s) \<or> re_test p s)"

record pattern_rule =
  re :: "atom list"
  label :: jsstring

definition SIGN_IN_BLOCK_PATTERNS :: "pattern_rule list" where
  "SIGN_IN_BLOCK_PATTERNS =
    [\<lparr>re = lits ''we can'' @ [OptOneOf [39, 8217, 96]] @ lits ''t sign you in'',
      label = js ''cant-sign-in''\<rparr>,
     \<lparr>re = lits ''incorrect account or password too many times'',
      label = js ''too-many-incorrect''\<rparr>,
     \<lparr>re = lits ''used an incorrect account or password too many times'',
      label = js ''too-many-incorrect-variant''\<rparr>,
     \<lparr>re = lits ''sign-in has been blocked'',
      label = js ''sign-in-blocked-phrase''\<rparr>,
     \<lparr>re = lits ''your account has been locked'',
      label = js ''account-locked''\<rparr>]"

text \<open>
  The loop \<open>for (const p of PATTERNS) { if (p.re.test(lower)) { matched = p.label; break } }\<close>
  starting from \<open>matched = null\<close>.
\<close>

fun classify :: "pattern_rule list \<Rightarrow> jsstring \<Rightarrow> jsstring option" where
  "classify [] lower = None"
| "classify (p # ps) lower =
     (if re_test (re p) lower then Some (label p) else classify ps lower)"

section \<open>Pages, collaborators and the state of the bot\<close>

datatype js_error = Error (message: jsstring)

text \<open>A promise once awaited: resolved with a value or rejected with an error.\<close>

datatype 'a settled = Resolved 'a | Rejected js_error

datatype ElementHandle = ElementHandle (textContent: "jsstring option settled")

text \<open>
  Within one call every selector is waited for once, so a page is the answer of
  \<open>waitForSelector\<close> to each selector and timeout.
\<close>

record Page =
  waitForSelector :: "jsstring \<Rightarrow> nat \<Rightarrow> ElementHandle option settled"

record SecurityIncident =
  kind :: jsstring
  account :: jsstring
  details :: "jsstring list"
  "next" :: "jsstring list"
  docsUrl :: jsstring

datatype severity = Warn | Critical

datatype dispatch = Success | Failure

text \<open>
  What the detector calls and does not define. \<open>SecurityUtils\<close>, \<open>logError\<close> and the bot
  class are not among the sources, so their answers are parameters:
  \<^item> \<open>toLowerCase\<close> is the runtime's \<open>String.prototype.toLowerCase\<close>;
  \<^item> \<open>getDocsUrl\<close>, \<open>startCompromisedInterval\<close>, \<open>bot.log\<close> and the handler made by
    \<open>logError\<close> are synchronous and return;
  \<^item> \<open>SecurityUtils.sendIncidentAlert\<close>, \<open>bot.engageGlobalStandby\<close> and
    \<open>SecurityUtils.openDocsTab\<close> return promises that resolve or reject;
  \<^item> Modelled from the spec: what a resolved \<open>sendIncidentAlert\<close> stands for. The spec's
    dispatcher is \<open>send(incident, severity) \<rightarrow> success|failure\<close> and never propagates an
    error past its boundary: a delivery that failed inside it resolves as \<open>Failure\<close>.
\<close>

record collaborators =
  toLowerCase :: "jsstring \<Rightarrow> jsstring"
  getDocsUrl :: "jsstring \<Rightarrow> jsstring"
  sendIncidentAlert :: "SecurityIncident \<Rightarrow> severity \<Rightarrow> dispatch settled"
  engageGlobalStandby :: "jsstring \<Rightarrow> jsstring \<Rightarrow> unit settled"
  openDocsTab :: "jsstring \<Rightarrow> unit settled"

text \<open>Every call that leaves the detector, in the order it is made.\<close>

datatype effect =
    WaitForSelector jsstring nat
  | TextContent jsstring
  | Log bool jsstring jsstring jsstring
  | SendIncidentAlert SecurityIncident severity
  | StartCompromisedInterval
  | EngageGlobalStandby jsstring jsstring
  | OpenDocsTab jsstring
  | LogError jsstring jsstring bool js_error

text \<open>
  The fields of the bot that the detector reads and writes, with the calls made so far.
  Modelled from the spec: \<open>globalStandby\<close> stands for what \<open>bot.engageGlobalStandby\<close>
  (not among the sources) leaves behind when it resolves: the fleet is in global standby,
  with the reason and the triggering account recorded.
\<close>

record MicrosoftRewardsBot =
  compromisedModeActive :: bool
  compromisedReason :: "jsstring option"
  currentAccountEmail :: "jsstring option"
  isMobile :: bool
  globalStandby :: "(jsstring \<times> jsstring) option"
  effects :: "effect list"

definition emit :: "effect \<Rightarrow> MicrosoftRewardsBot \<Rightarrow> MicrosoftRewardsBot" where
  "emit e w = w\<lparr>effects := effects w @ [e]\<rparr>"

section \<open>SecurityDetector\<close>

definition headingSelectors :: "jsstring list" where
  "headingSelectors =
     [js ''[data-testid=\"title\"]'', js ''h1'', js ''div[role=\"heading\"]'', js ''div.text-title'']"

text \<open>
  One heading's share of the aggregated text:
  \<open>const t = (await el.textContent() || '').trim(); if (t && t.length < 300) text += ' ' + t\<close>.
\<close>

definition addHeading :: "jsstring \<Rightarrow> jsstring option \<Rightarrow> jsstring" where
  "addHeading text r =
     (let t = trim (orElse r [])
      in if t \<noteq> [] \<and> length t < 300 then text @ js '' '' @ t else text)"

text \<open>
  The probing loop. A rejected \<open>waitForSelector\<close> is turned into \<open>null\<close> by its own
  \<open>catch\<close>; a rejected \<open>textContent\<close> has no handler and leaves the loop as an exception
  (\<open>Inl\<close>).
\<close>

fun probeHeadings ::
  "Page \<Rightarrow> jsstring list \<Rightarrow> jsstring \<Rightarrow> MicrosoftRewardsBot
     \<Rightarrow> (js_error + jsstring) \<times> MicrosoftRewardsBot" where
  "probeHeadings page [] text w = (Inr text, w)"
| "probeHeadings page (sel # sels) text w =
     (let w1 = emit (WaitForSelector sel 600) w;
          el = (case waitForSelector page sel 600 of Rejected e \<Rightarrow> None | Resolved h \<Rightarrow> h)
      in case el of
           None \<Rightarrow> probeHeadings page sels text w1
         | Some h \<Rightarrow>
             (let w2 = emit (TextContent sel) w1
              in case textContent h of
                   Rejected e \<Rightarrow> (Inl e, w2)
                 | Resolved r \<Rightarrow> probeHeadings page sels (addHeading text r) w2))"

text \<open>
  What one turn of the loop (lines 29 to 32) appends to the aggregated text: nothing when
  the selector is not found, when reading the text fails, or when the trimmed text is
  empty or has 300 code units or more; a space and the trimmed text otherwise.
\<close>

definition headingShare :: "Page \<Rightarrow> jsstring \<Rightarrow> jsstring" where
  "headingShare page sel =
     (case waitForSelector page sel 600 of
        Rejected e \<Rightarrow> []
      | Resolved None \<Rightarrow> []
      | Resolved (Some h) \<Rightarrow>
          (case textContent h of
             Rejected e \<Rightarrow> []
           | Resolved r \<Rightarrow>
               (let t = trim (orElse r [])
                in if t \<noteq> [] \<and> length t < 300 then js '' '' @ t else [])))"

text \<open>
  \<open>await this.bot.engageGlobalStandby(reason, email).catch(logError(\<dots>))\<close> and
  \<open>await this.securityUtils.openDocsTab(page, docsUrl).catch(logError(\<dots>))\<close>: a rejection
  goes to the logging handler and the awaited promise resolves.
\<close>

definition engageStandbyCaught ::
  "collaborators \<Rightarrow> jsstring \<Rightarrow> jsstring \<Rightarrow> MicrosoftRewardsBot \<Rightarrow> MicrosoftRewardsBot" where
  "engageStandbyCaught c reason email w =
     (let w1 = emit (EngageGlobalStandby reason email) w
      in case engageGlobalStandby c reason email of
           Resolved _ \<Rightarrow> w1\<lparr>globalStandby := Some (reason, email)\<rparr>
         | Rejected e \<Rightarrow>
             emit (LogError (js ''LOGIN-SECURITY'') (js ''Global standby engagement failed'')
                     (isMobile w1) e) w1)"

definition openDocsTabCaught ::
  "collaborators \<Rightarrow> jsstring \<Rightarrow> MicrosoftRewardsBot \<Rightarrow> MicrosoftRewardsBot" where
  "openDocsTabCaught c docs w =
     (let w1 = emit (OpenDocsTab docs) w
      in case openDocsTab c docs of
           Resolved _ \<Rightarrow> w1
         | Rejected e \<Rightarrow>
             emit (LogError (js ''LOGIN-SECURITY'') (js ''Failed to open docs tab'')
                     (isMobile w1) e) w1)"

definition buildIncident :: "jsstring \<Rightarrow> jsstring option \<Rightarrow> jsstring \<Rightarrow> SecurityIncident" where
  "buildIncident email matched docs =
     \<lparr>kind = js ''We can't sign you in (blocked)'',
      account = email,
      details = [if truthy matched then js ''Pattern: '' @ orElse matched [] else js ''Pattern: unknown''],
      next = [js ''Manual recovery required before continuing''],
      docsUrl = docs\<rparr>"

text \<open>Lines 49 to 54: what follows the alert.\<close>

definition afterAlert ::
  "collaborators \<Rightarrow> jsstring \<Rightarrow> jsstring \<Rightarrow> MicrosoftRewardsBot \<Rightarrow> MicrosoftRewardsBot" where
  "afterAlert c email docs w =
     (let w2 = w\<lparr>compromisedModeActive := True,
                 compromisedReason := Some (js ''sign-in-blocked'')\<rparr>;
          w3 = emit StartCompromisedInterval w2;
          w4 = engageStandbyCaught c (js ''sign-in-blocked'') email w3
      in openDocsTabCaught c docs w4)"

text \<open>
  Lines 39 to 55: what follows a match. The alert is awaited inside the \<open>try\<close> block
  without a handler of its own: its answer is dropped, and a rejection leaves as an
  exception before any flag is set.
\<close>

definition onMatch ::
  "collaborators \<Rightarrow> jsstring option \<Rightarrow> MicrosoftRewardsBot
     \<Rightarrow> (js_error + bool) \<times> MicrosoftRewardsBot" where
  "onMatch c matched w =
     (let email = orElse (currentAccountEmail w) (js ''unknown'');
          docs = getDocsUrl c (js ''we-cant-sign-you-in'');
          incident = buildIncident email matched docs;
          w1 = emit (SendIncidentAlert incident Warn) w
      in case sendIncidentAlert c incident Warn of
           Rejected e \<Rightarrow> (Inl e, w1)
         | Resolved d \<Rightarrow> (Inr True, afterAlert c email docs w1))"

text \<open>The body of the \<open>try\<close> block; \<open>Inl\<close> is an exception on its way to the \<open>catch\<close>.\<close>

definition detectBody ::
  "collaborators \<Rightarrow> Page \<Rightarrow> MicrosoftRewardsBot \<Rightarrow> (js_error + bool) \<times> MicrosoftRewardsBot" where
  "detectBody c page w =
     (case probeHeadings page headingSelectors [] w of
        (Inl e, w1) \<Rightarrow> (Inl e, w1)
      | (Inr text, w1) \<Rightarrow>
          (let lower = toLowerCase c text;
               matched = classify SIGN_IN_BLOCK_PATTERNS lower
           in if \<not> truthy matched then (Inr False, w1)
              else onMatch c matched w1))"

definition fastPath :: "MicrosoftRewardsBot \<Rightarrow> bool" where
  "fastPath w = (compromisedModeActive w \<and> compromisedReason w = Some (js ''sign-in-blocked''))"

definition detectSignInBlocked ::
  "collaborators \<Rightarrow> Page \<Rightarrow> MicrosoftRewardsBot \<Rightarrow> (js_error + bool) \<times> MicrosoftRewardsBot" where
  "detectSignInBlocked c page w =
     (if fastPath w then (Inr True, w)
      else case detectBody c page w of
             (Inl e, w1) \<Rightarrow> (Inr False, w1)
           | (Inr b, w1) \<Rightarrow> (Inr b, w1))"

definition hardLockSelector :: jsstring where
  "hardLockSelector = js ''#serviceAbuseLandingTitle''"

definition checkAccountLocked ::
  "Page \<Rightarrow> MicrosoftRewardsBot \<Rightarrow> (js_error + unit) \<times> MicrosoftRewardsBot" where
  "checkAccountLocked page w =
     (let w1 = emit (WaitForSelector hardLockSelector 1200) w;
          locked = (case waitForSelector page hardLockSelector 1200 of
                      Resolved _ \<Rightarrow> True | Rejected _ \<Rightarrow> False)
      in if locked
         then (Inl (Error (js ''Account locked by Microsoft - please review account status'')),
               emit (Log (isMobile w1) (js ''CHECK-LOCKED'')
                       (js ''Account locked by Microsoft (serviceAbuseLandingTitle)'')
                       (js ''error'')) w1)
         else (Inr (), w1))"

section \<open>Repeated calls and counting effects\<close>

text \<open>A worker calling the detector again and again, each time on the page it then sees.\<close>

fun detectRepeatedly ::
  "(collaborators \<times> Page) list \<Rightarrow> MicrosoftRewardsBot
     \<Rightarrow> (js_error + bool) list \<times> MicrosoftRewardsBot" where
  "detectRepeatedly [] w = ([], w)"
| "detectRepeatedly ((c, page) # calls) w =
     (case detectSignInBlocked c page w of
        (r, w1) \<Rightarrow> (case detectRepeatedly calls w1 of (rs, w2) \<Rightarrow> (r # rs, w2)))"

fun isAlert :: "effect \<Rightarrow> bool" where
  "isAlert (SendIncidentAlert i s) = True"
| "isAlert e = False"

fun isWait :: "effect \<Rightarrow> bool" where
  "isWait (WaitForSelector s t) = True"
| "isWait e = False"

definition alertsSent :: "MicrosoftRewardsBot \<Rightarrow> nat" where
  "alertsSent w = length (filter isAlert (effects w))"

section \<open>Browser.createBrowser\<close>










text \<open>
  The fields of \<open>AccountProxy\<close> that \<open>buildPlaywrightProxy\<close> reads; an absent string is
  the empty string, and the port is an integer (0 is falsy).
\<close>

record AccountProxy =
  url :: jsstring
  port :: int
  username :: jsstring
  password :: jsstring


























section \<open>Sample pages, accounts and collaborators\<close>

text \<open>Concrete inputs on which the theorems below are exercised.\<close>

definition asciiLower :: "jsstring \<Rightarrow> jsstring" where
  "asciiLower s = map (\<lambda>c. if 65 \<le> c \<and> c \<le> 90 then c + 32 else c) s"

definition timeoutError :: js_error where
  "timeoutError = Error (js ''Timeout exceeded'')"

definition heading :: "jsstring \<Rightarrow> ElementHandle" where
  "heading s = ElementHandle (Resolved (Some s))"

definition detachedHeading :: ElementHandle where
  "detachedHeading = ElementHandle (Rejected (Error (js ''Execution context was destroyed'')))"

text \<open>A page with the listed elements; every other selector times out.\<close>

definition pageWith :: "(jsstring \<times> ElementHandle) list \<Rightarrow> Page" where
  "pageWith hs =
     \<lparr>waitForSelector = (\<lambda>sel t. case map_of hs sel of
                                     None \<Rightarrow> Rejected timeoutError
                                   | Some h \<Rightarrow> Resolved (Some h))\<rparr>"

definition blockedPage :: Page where
  "blockedPage = pageWith [(js ''h1'', heading (js ''We can't sign you in''))]"

definition welcomePage :: Page where
  "welcomePage = pageWith [(js ''h1'', heading (js ''Welcome''))]"

definition racingPage :: Page where
  "racingPage =
     pageWith [(js ''[data-testid=\"title\"]'', heading (js ''We can't sign you in'')),
               (js ''h1'', detachedHeading)]"

definition racingPageWithoutH1 :: Page where
  "racingPageWithoutH1 =
     pageWith [(js ''[data-testid=\"title\"]'', heading (js ''We can't sign you in''))]"

definition longHeadingPage :: Page where
  "longHeadingPage =
     pageWith [(js ''h1'', heading (js ''We can't sign you in'' @ replicate 300 120))]"

text \<open>A title of 320 code units that carries a blocking text, above a short heading.\<close>

definition mixedPage :: Page where
  "mixedPage =
     pageWith [(js ''[data-testid=\"title\"]'',
                heading (js ''We can't sign you in'' @ replicate 300 120)),
               (js ''h1'', heading (js ''  Welcome ''))]"

definition lockedPage :: Page where
  "lockedPage = pageWith [(hardLockSelector, heading (js ''Your account has been locked''))]"

definition freshBot :: "jsstring \<Rightarrow> MicrosoftRewardsBot" where
  "freshBot a =
     \<lparr>compromisedModeActive = False, compromisedReason = None,
      currentAccountEmail = Some a, isMobile = False, globalStandby = None, effects = []\<rparr>"

definition docsFor :: "jsstring \<Rightarrow> jsstring" where
  "docsFor k = js ''docs/'' @ k"

definition healthyCollaborators :: collaborators where
  "healthyCollaborators =
     \<lparr>toLowerCase = asciiLower, getDocsUrl = docsFor,
      sendIncidentAlert = (\<lambda>i s. Resolved Success),
      engageGlobalStandby = (\<lambda>r a. Resolved ()),
      openDocsTab = (\<lambda>u. Resolved ())\<rparr>"

definition failingCollaborators :: collaborators where
  "failingCollaborators =
     \<lparr>toLowerCase = asciiLower, getDocsUrl = docsFor,
      sendIncidentAlert = (\<lambda>i s. Resolved Failure),
      engageGlobalStandby = (\<lambda>r a. Rejected (Error (js ''standby failed''))),
      openDocsTab = (\<lambda>u. Rejected (Error (js ''no browser'')))\<rparr>"










text \<open>
  The bot after a confirmed incident for the account \<open>a@x\<close>, and the same bot once it has
  moved on to the account \<open>b@x\<close>.
\<close>

definition compromisedBot :: MicrosoftRewardsBot where
  "compromisedBot =
     snd (detectSignInBlocked healthyCollaborators blockedPage (freshBot (js ''a@x'')))"

definition nextAccountBot :: MicrosoftRewardsBot where
  "nextAccountBot = compromisedBot\<lparr>currentAccountEmail := Some (js ''b@x'')\<rparr>"

section \<open>Unfolding the model on concrete inputs\<close>

lemmas fixture_defs = asciiLower_def timeoutError_def pageWith_def heading_def detachedHeading_def
  blockedPage_def welcomePage_def racingPage_def racingPageWithoutH1_def
  longHeadingPage_def mixedPage_def lockedPage_def freshBot_def docsFor_def healthyCollaborators_def
  failingCollaborators_def compromisedBot_def nextAccountBot_def

lemmas eval_defs = js_def lits_def canonicalize_def SIGN_IN_BLOCK_PATTERNS_def headingSelectors_def
  hardLockSelector_def isWhiteSpace_def trim_def addHeading_def emit_def detectBody_def
  detectSignInBlocked_def fastPath_def onMatch_def afterAlert_def buildIncident_def engageStandbyCaught_def
  openDocsTabCaught_def checkAccountLocked_def Let_def

section \<open>The probing loop\<close>

lemma emit_simps [simp]:
  "effects (emit e w) = effects w @ [e]"
  "compromisedModeActive (emit e w) = compromisedModeActive w"
  "compromisedReason (emit e w) = compromisedReason w"
  "currentAccountEmail (emit e w) = currentAccountEmail w"
  "isMobile (emit e w) = isMobile w"
  "globalStandby (emit e w) = globalStandby w"
  by (simp_all add: emit_def)

lemma probeHeadings_frame:
  "\<exists>es. snd (probeHeadings page sels acc w) = w\<lparr>effects := effects w @ es\<rparr>"
proof (induction sels arbitrary: acc w)
  case Nil
  show ?case by (rule exI [of _ "[]"]) simp
next
  case (Cons sel sels)
  have step: "\<exists>es. snd (probeHeadings page sels a (emit e1 w)) = w\<lparr>effects := effects w @ es\<rparr>"
    for a e1
  proof -
    obtain es where "snd (probeHeadings page sels a (emit e1 w))
        = (emit e1 w)\<lparr>effects := effects (emit e1 w) @ es\<rparr>"
      using Cons.IH by blast
    then have "snd (probeHeadings page sels a (emit e1 w)) = w\<lparr>effects := effects w @ (e1 # es)\<rparr>"
      by (simp add: emit_def)
    then show ?thesis by blast
  qed
  have step2: "\<exists>es. snd (probeHeadings page sels a (emit e2 (emit e1 w))) = w\<lparr>effects := effects w @ es\<rparr>"
    for a e1 e2
  proof -
    obtain es where "snd (probeHeadings page sels a (emit e2 (emit e1 w)))
        = (emit e2 (emit e1 w))\<lparr>effects := effects (emit e2 (emit e1 w)) @ es\<rparr>"
      using Cons.IH by blast
    then have "snd (probeHeadings page sels a (emit e2 (emit e1 w)))
        = w\<lparr>effects := effects w @ (e1 # e2 # es)\<rparr>"
      by (simp add: emit_def)
    then show ?thesis by blast
  qed
  have stop: "\<exists>es. emit e2 (emit e1 w) = w\<lparr>effects := effects w @ es\<rparr>" for e1 e2
    by (rule exI [of _ "[e1, e2]"]) (simp add: emit_def)
  show ?case
    by (simp add: Let_def step step2 stop split: settled.splits option.splits)
qed

lemma probeHeadings_fields:
  "compromisedModeActive (snd (probeHeadings page sels acc w)) = compromisedModeActive w"
  "compromisedReason (snd (probeHeadings page sels acc w)) = compromisedReason w"
  "currentAccountEmail (snd (probeHeadings page sels acc w)) = currentAccountEmail w"
  "isMobile (snd (probeHeadings page sels acc w)) = isMobile w"
  "globalStandby (snd (probeHeadings page sels acc w)) = globalStandby w"
  "\<exists>es. effects (snd (probeHeadings page sels acc w)) = effects w @ es"
  using probeHeadings_frame [of page sels acc w] by auto

lemma probeHeadings_first_wait:
  "\<exists>es. effects (snd (probeHeadings page (sel # sels) acc w))
         = effects w @ WaitForSelector sel 600 # es"
proof -
  have a: "\<exists>es. effects (snd (probeHeadings page sels a (emit (WaitForSelector sel 600) w)))
           = effects w @ WaitForSelector sel 600 # es" for a
    using probeHeadings_fields(6) [of page sels a "emit (WaitForSelector sel 600) w"] by auto
  have b: "\<exists>es. effects (snd (probeHeadings page sels a (emit e2 (emit (WaitForSelector sel 600) w))))
           = effects w @ WaitForSelector sel 600 # es" for a e2
    using probeHeadings_fields(6) [of page sels a "emit e2 (emit (WaitForSelector sel 600) w)"]
    by auto
  show ?thesis
    by (simp add: Let_def a b split: settled.splits option.splits)
qed

lemma probeHeadings_waits:
  "fst (probeHeadings page sels acc w) = Inr t \<Longrightarrow>
   filter isWait (effects (snd (probeHeadings page sels acc w)))
     = filter isWait (effects w) @ map (\<lambda>s. WaitForSelector s 600) sels"
proof (induction sels arbitrary: acc w)
  case Nil
  show ?case by simp
next
  case (Cons sel sels)
  then show ?case
    by (auto simp: Let_def split: settled.splits option.splits)
qed

lemma probeHeadings_no_alert:
  "filter isAlert (effects (snd (probeHeadings page sels acc w))) = filter isAlert (effects w)"
proof (induction sels arbitrary: acc w)
  case Nil
  show ?case by simp
next
  case (Cons sel sels)
  then show ?case
    by (auto simp: Let_def split: settled.splits option.splits)
qed

lemma probeHeadings_raises:
  assumes "sel \<in> set sels"
      and "waitForSelector page sel 600 = Resolved (Some h)"
      and "textContent h = Rejected e"
  shows "\<exists>e'. fst (probeHeadings page sels acc w) = Inl e'"
  using assms
proof (induction sels arbitrary: acc w)
  case Nil
  then show ?case by simp
next
  case (Cons s sels)
  then show ?case
    by (cases "s = sel") (auto simp: Let_def split: settled.splits option.splits)
qed

lemma probeHeadings_all_excluded:
  assumes "\<forall>sel\<in>set sels. \<forall>h. waitForSelector page sel 600 = Resolved (Some h) \<longrightarrow>
             (\<exists>s. textContent h = Resolved (Some s) \<and> 300 \<le> length (trim s))"
  shows "fst (probeHeadings page sels acc w) = Inr acc"
  using assms
proof (induction sels arbitrary: acc w)
  case Nil
  show ?case by simp
next
  case (Cons sel sels)
  have ih: "fst (probeHeadings page sels a v) = Inr a" for a v
    using Cons by simp
  have long: "300 \<le> length (trim s) \<Longrightarrow> addHeading acc (Some s) = acc" for s
    by (auto simp: addHeading_def Let_def)
  show ?case
  proof (cases "waitForSelector page sel 600")
    case (Rejected e)
    then show ?thesis by (simp add: Let_def ih)
  next
    case (Resolved el)
    show ?thesis
    proof (cases el)
      case None
      with Resolved show ?thesis by (simp add: Let_def ih)
    next
      case (Some h)
      with Resolved Cons.prems obtain s where
        "textContent h = Resolved (Some s)" "300 \<le> length (trim s)"
        by auto
      with Resolved Some show ?thesis by (simp add: Let_def ih long)
    qed
  qed
qed

section \<open>Classification\<close>

lemma classify_find:
  "classify rs lower = map_option label (find (\<lambda>p. re_test (re p) lower) rs)"
  by (induction rs) simp_all

lemma classify_None_iff:
  "classify rs lower = None \<longleftrightarrow> (\<forall>p\<in>set rs. \<not> re_test (re p) lower)"
  by (induction rs) simp_all

lemma classify_Some_iff:
  "classify rs lower = Some l \<longleftrightarrow>
     (\<exists>i<length rs. re_test (re (rs ! i)) lower \<and> l = label (rs ! i)
        \<and> (\<forall>j<i. \<not> re_test (re (rs ! j)) lower))"
  unfolding classify_find by (auto simp: find_Some_iff)

lemma classify_label_in_table:
  "classify rs lower = Some l \<Longrightarrow> l \<in> label ` set rs"
  by (induction rs) (auto split: if_splits)

lemma table_labels_truthy:
  "classify SIGN_IN_BLOCK_PATTERNS lower = Some l \<Longrightarrow> truthy (Some l)"
  by (drule classify_label_in_table) (auto simp: SIGN_IN_BLOCK_PATTERNS_def js_def)

lemma classify_empty_text: "classify SIGN_IN_BLOCK_PATTERNS [] = None"
  by (simp add: SIGN_IN_BLOCK_PATTERNS_def lits_def js_def)

section \<open>The detector, step by step\<close>

lemma detect_returns_boolean: "\<exists>b. fst (detectSignInBlocked c page w) = Inr b"
  by (auto simp: detectSignInBlocked_def split: prod.splits sum.splits)

lemma afterAlert_flags:
  "compromisedModeActive (afterAlert c email docs w)"
  "compromisedReason (afterAlert c email docs w) = Some (js ''sign-in-blocked'')"
  by (simp_all add: afterAlert_def engageStandbyCaught_def openDocsTabCaught_def Let_def
      split: settled.splits)

lemma afterAlert_effects:
  "effects (afterAlert c email docs w) =
     effects w
     @ [StartCompromisedInterval, EngageGlobalStandby (js ''sign-in-blocked'') email]
     @ (case engageGlobalStandby c (js ''sign-in-blocked'') email of
          Resolved u \<Rightarrow> []
        | Rejected e \<Rightarrow>
            [LogError (js ''LOGIN-SECURITY'') (js ''Global standby engagement failed'')
               (isMobile w) e])
     @ [OpenDocsTab docs]
     @ (case openDocsTab c docs of
          Resolved u \<Rightarrow> []
        | Rejected e \<Rightarrow>
            [LogError (js ''LOGIN-SECURITY'') (js ''Failed to open docs tab'') (isMobile w) e])"
  by (simp add: afterAlert_def engageStandbyCaught_def openDocsTabCaught_def Let_def
      split: settled.splits)

lemma afterAlert_standby:
  "globalStandby (afterAlert c email docs w) =
     (case engageGlobalStandby c (js ''sign-in-blocked'') email of
        Resolved u \<Rightarrow> Some (js ''sign-in-blocked'', email)
      | Rejected e \<Rightarrow> globalStandby w)"
  by (simp add: afterAlert_def engageStandbyCaught_def openDocsTabCaught_def Let_def
      split: settled.splits)

lemma onMatch_cases:
  "(\<exists>e. onMatch c m w =
          (Inl e,
           emit (SendIncidentAlert
                   (buildIncident (orElse (currentAccountEmail w) (js ''unknown'')) m
                      (getDocsUrl c (js ''we-cant-sign-you-in''))) Warn) w))
   \<or> onMatch c m w =
        (Inr True,
         afterAlert c (orElse (currentAccountEmail w) (js ''unknown''))
           (getDocsUrl c (js ''we-cant-sign-you-in''))
           (emit (SendIncidentAlert
                    (buildIncident (orElse (currentAccountEmail w) (js ''unknown'')) m
                       (getDocsUrl c (js ''we-cant-sign-you-in''))) Warn) w))"
  by (simp add: onMatch_def Let_def split: settled.splits)

lemma onMatch_resolved:
  assumes "sendIncidentAlert c
             (buildIncident (orElse (currentAccountEmail w) (js ''unknown'')) m
                (getDocsUrl c (js ''we-cant-sign-you-in''))) Warn = Resolved d"
  shows "onMatch c m w =
           (Inr True,
            afterAlert c (orElse (currentAccountEmail w) (js ''unknown''))
              (getDocsUrl c (js ''we-cant-sign-you-in''))
              (emit (SendIncidentAlert
                       (buildIncident (orElse (currentAccountEmail w) (js ''unknown'')) m
                          (getDocsUrl c (js ''we-cant-sign-you-in''))) Warn) w))"
  using assms by (simp add: onMatch_def Let_def)

lemma onMatch_true_sets_flags:
  "fst (onMatch c m w) = Inr True \<Longrightarrow> fastPath (snd (onMatch c m w))"
  using onMatch_cases [of c m w] by (auto simp: fastPath_def afterAlert_flags)

lemma onMatch_returns:
  "fst (onMatch c m w) = Inr b \<Longrightarrow> b"
  using onMatch_cases [of c m w] by auto

lemma onMatch_alerts:
  "alertsSent (snd (onMatch c m w)) = alertsSent w + 1"
  using onMatch_cases [of c m w] by (auto simp: alertsSent_def afterAlert_effects split: settled.splits)

lemma detect_on_match:
  assumes "\<not> fastPath w"
      and "probeHeadings page headingSelectors [] w = (Inr t, w1)"
      and "classify SIGN_IN_BLOCK_PATTERNS (toLowerCase c t) = Some l"
  shows "detectSignInBlocked c page w =
           (case onMatch c (Some l) w1 of
              (Inl e, w2) \<Rightarrow> (Inr False, w2)
            | (Inr b, w2) \<Rightarrow> (Inr b, w2))"
  using assms table_labels_truthy [OF assms(3)]
  by (simp add: detectSignInBlocked_def detectBody_def Let_def)

lemma detect_on_match_resolved:
  assumes "\<not> fastPath w"
      and "probeHeadings page headingSelectors [] w = (Inr t, w1)"
      and "classify SIGN_IN_BLOCK_PATTERNS (toLowerCase c t) = Some l"
      and "sendIncidentAlert c
             (buildIncident (orElse (currentAccountEmail w) (js ''unknown'')) (Some l)
                (getDocsUrl c (js ''we-cant-sign-you-in''))) Warn = Resolved d"
  shows "detectSignInBlocked c page w =
           (Inr True,
            afterAlert c (orElse (currentAccountEmail w) (js ''unknown''))
              (getDocsUrl c (js ''we-cant-sign-you-in''))
              (emit (SendIncidentAlert
                       (buildIncident (orElse (currentAccountEmail w) (js ''unknown'')) (Some l)
                          (getDocsUrl c (js ''we-cant-sign-you-in''))) Warn) w1))"
proof -
  have e: "currentAccountEmail w1 = currentAccountEmail w"
    using probeHeadings_fields(3) [of page headingSelectors "[]" w] assms(2) by simp
  show ?thesis
    using detect_on_match [OF assms(1,2,3)] onMatch_resolved [of c w1 "Some l" d] assms(4) e
    by simp
qed

lemma detect_on_no_match:
  assumes "\<not> fastPath w"
      and "probeHeadings page headingSelectors [] w = (Inr t, w1)"
      and "classify SIGN_IN_BLOCK_PATTERNS (toLowerCase c t) = None"
  shows "detectSignInBlocked c page w = (Inr False, w1)"
  using assms by (simp add: detectSignInBlocked_def detectBody_def Let_def)

lemma detect_on_probe_error:
  assumes "\<not> fastPath w"
      and "probeHeadings page headingSelectors [] w = (Inl e, w1)"
  shows "detectSignInBlocked c page w = (Inr False, w1)"
  using assms by (simp add: detectSignInBlocked_def detectBody_def Let_def)

lemma detect_state_cases:
  assumes "\<not> fastPath w"
  shows "snd (detectSignInBlocked c page w) = snd (probeHeadings page headingSelectors [] w)
       \<or> (\<exists>l. snd (detectSignInBlocked c page w)
                = snd (onMatch c (Some l) (snd (probeHeadings page headingSelectors [] w)))
              \<and> (fst (detectSignInBlocked c page w) = Inr True
                   \<longrightarrow> fst (onMatch c (Some l) (snd (probeHeadings page headingSelectors [] w)))
                        = Inr True))"
proof -
  obtain r w1 where p: "probeHeadings page headingSelectors [] w = (r, w1)"
    by (cases "probeHeadings page headingSelectors [] w")
  show ?thesis
  proof (cases r)
    case (Inl e)
    then show ?thesis
      using detect_on_probe_error [OF assms] p by simp
  next
    case (Inr t)
    show ?thesis
    proof (cases "classify SIGN_IN_BLOCK_PATTERNS (toLowerCase c t)")
      case None
      then show ?thesis
        using detect_on_no_match [OF assms] p Inr by simp
    next
      case (Some l)
      have d: "detectSignInBlocked c page w =
                 (case onMatch c (Some l) w1 of
                    (Inl e, w2) \<Rightarrow> (Inr False, w2)
                  | (Inr b, w2) \<Rightarrow> (Inr b, w2))"
        using detect_on_match [OF assms] p Inr Some by simp
      have "snd (detectSignInBlocked c page w) = snd (onMatch c (Some l) w1)
            \<and> (fst (detectSignInBlocked c page w) = Inr True
                 \<longrightarrow> fst (onMatch c (Some l) w1) = Inr True)"
        unfolding d by (auto split: prod.splits sum.splits)
      then show ?thesis
        using p by auto
    qed
  qed
qed

lemma detect_true_sets_fast_path:
  assumes "fst (detectSignInBlocked c page w) = Inr True"
  shows "fastPath (snd (detectSignInBlocked c page w))"
proof (cases "fastPath w")
  case True
  then show ?thesis by (simp add: detectSignInBlocked_def)
next
  case False
  let ?w1 = "snd (probeHeadings page headingSelectors [] w)"
  obtain r where p: "probeHeadings page headingSelectors [] w = (r, ?w1)"
    by (cases "probeHeadings page headingSelectors [] w") simp
  have notrue: "snd (detectSignInBlocked c page w) = ?w1 \<Longrightarrow> False"
  proof -
    assume a: "snd (detectSignInBlocked c page w) = ?w1"
    show False
    proof (cases r)
      case (Inl e)
      then show False
        using detect_on_probe_error [OF False, of page e ?w1 c] p assms by simp
    next
      case (Inr t)
      show False
      proof (cases "classify SIGN_IN_BLOCK_PATTERNS (toLowerCase c t)")
        case None
        then show False
          using detect_on_no_match [OF False, of page t ?w1 c] p Inr assms by simp
      next
        case (Some l)
        have "effects (snd (onMatch c (Some l) ?w1)) \<noteq> effects ?w1"
          using onMatch_cases [of c "Some l" ?w1] by (auto simp: afterAlert_effects)
        moreover have "snd (detectSignInBlocked c page w) = snd (onMatch c (Some l) ?w1)"
          using detect_on_match [OF False, of page t ?w1 c l] p Inr Some
          by (auto split: prod.splits sum.splits)
        ultimately show False
          using a by simp
      qed
    qed
  qed
  show ?thesis
    using detect_state_cases [OF False, of c page] assms notrue onMatch_true_sets_flags
    by auto
qed

lemma detect_alerts:
  "alertsSent (snd (detectSignInBlocked c page w)) \<le> alertsSent w + 1"
proof (cases "fastPath w")
  case True
  then show ?thesis by (simp add: detectSignInBlocked_def)
next
  case False
  have "alertsSent (snd (probeHeadings page headingSelectors [] w)) = alertsSent w"
    by (simp add: alertsSent_def probeHeadings_no_alert)
  then show ?thesis
    using detect_state_cases [OF False, of c page] by (auto simp: onMatch_alerts)
qed

section \<open>The hard lock and the classification\<close>

text \<open>
  Claim C1. On every page where the hard-lock element (selector \<open>#serviceAbuseLandingTitle\<close>)
  is found, \<open>checkAccountLocked\<close> throws at once. The bot is left as it was but for the
  wait and one log line: no alert is sent, no standby is engaged, no compromised flag is
  touched. The thrown error differs from every other outcome of the detector:
  \<open>detectSignInBlocked\<close> never ends in an error, and \<open>checkAccountLocked\<close> ends in one
  exactly when the element is found.
\<close>

theorem checkAccountLocked_raises_on_hard_lock:
  assumes "waitForSelector page hardLockSelector 1200 = Resolved h"
  shows "checkAccountLocked page w =
           (Inl (Error (js ''Account locked by Microsoft - please review account status'')),
            w\<lparr>effects := effects w @
                 [WaitForSelector (js ''#serviceAbuseLandingTitle'') 1200,
                  Log (isMobile w) (js ''CHECK-LOCKED'')
                    (js ''Account locked by Microsoft (serviceAbuseLandingTitle)'')
                    (js ''error'')]\<rparr>)
         \<and> fst (detectSignInBlocked c page' w') \<noteq> Inl e
         \<and> fst (checkAccountLocked page' w') =
             (case waitForSelector page' hardLockSelector 1200 of
                Resolved x \<Rightarrow>
                  Inl (Error (js ''Account locked by Microsoft - please review account status''))
              | Rejected x \<Rightarrow> Inr ())"
proof -
  have a: "fst (detectSignInBlocked c page' w') \<noteq> Inl e"
    using detect_returns_boolean [of c page' w'] by auto
  show ?thesis
    using assms a
    by (simp add: checkAccountLocked_def hardLockSelector_def emit_def Let_def
        split: settled.splits)
qed

theorem checkAccountLocked_raises_on_hard_lock_witness:
  "waitForSelector lockedPage hardLockSelector 1200
     = Resolved (Some (heading (js ''Your account has been locked'')))
   \<and> fst (checkAccountLocked lockedPage (freshBot (js ''a@x'')))
       = Inl (Error (js ''Account locked by Microsoft - please review account status''))
   \<and> compromisedModeActive (snd (checkAccountLocked lockedPage (freshBot (js ''a@x'')))) = False
   \<and> globalStandby (snd (checkAccountLocked lockedPage (freshBot (js ''a@x'')))) = None
   \<and> alertsSent (snd (checkAccountLocked lockedPage (freshBot (js ''a@x'')))) = 0
   \<and> fst (checkAccountLocked welcomePage (freshBot (js ''a@x''))) = Inr ()"
proof -
  have h: "waitForSelector lockedPage hardLockSelector 1200
             = Resolved (Some (heading (js ''Your account has been locked'')))"
    by (simp add: lockedPage_def pageWith_def)
  have n: "waitForSelector welcomePage hardLockSelector 1200 = Rejected timeoutError"
    by (simp add: welcomePage_def pageWith_def hardLockSelector_def js_def)
  show ?thesis
    using h n
      checkAccountLocked_raises_on_hard_lock
        [OF h, of "freshBot (js ''a@x'')" healthyCollaborators welcomePage "freshBot (js ''a@x'')"]
    by (simp add: freshBot_def alertsSent_def)
qed

text \<open>
  Claim C3. Classification over the ordered table is first-match-wins: a label is returned
  exactly when it is the label of the rule of least index whose pattern matches the
  lower-cased text, so where several rules match the earliest one decides. Nothing is
  returned exactly when no rule matches, and \<open>detectSignInBlocked\<close> then returns false.
\<close>

theorem classify_first_match_wins:
  "(classify SIGN_IN_BLOCK_PATTERNS lower = Some l \<longleftrightarrow>
      (\<exists>i<length SIGN_IN_BLOCK_PATTERNS.
          re_test (re (SIGN_IN_BLOCK_PATTERNS ! i)) lower
        \<and> l = label (SIGN_IN_BLOCK_PATTERNS ! i)
        \<and> (\<forall>j<i. \<not> re_test (re (SIGN_IN_BLOCK_PATTERNS ! j)) lower)))
   \<and> (classify SIGN_IN_BLOCK_PATTERNS lower = None \<longleftrightarrow>
        (\<forall>p\<in>set SIGN_IN_BLOCK_PATTERNS. \<not> re_test (re p) lower))
   \<and> (\<not> fastPath w
        \<and> probeHeadings page headingSelectors [] w = (Inr t, w1)
        \<and> (\<forall>p\<in>set SIGN_IN_BLOCK_PATTERNS. \<not> re_test (re p) (toLowerCase c t))
        \<longrightarrow> detectSignInBlocked c page w = (Inr False, w1))"
proof -
  have "detectSignInBlocked c page w = (Inr False, w1)"
    if "\<not> fastPath w" "probeHeadings page headingSelectors [] w = (Inr t, w1)"
       "\<forall>p\<in>set SIGN_IN_BLOCK_PATTERNS. \<not> re_test (re p) (toLowerCase c t)"
    using that detect_on_no_match [of w page t w1 c] by (simp add: classify_None_iff)
  then show ?thesis
    using classify_Some_iff [of SIGN_IN_BLOCK_PATTERNS lower l]
      classify_None_iff [of SIGN_IN_BLOCK_PATTERNS lower]
    by blast
qed

theorem classify_first_match_wins_witness:
  "re_test (re (SIGN_IN_BLOCK_PATTERNS ! 1))
      (js ''you used an incorrect account or password too many times'')
   \<and> re_test (re (SIGN_IN_BLOCK_PATTERNS ! 2))
      (js ''you used an incorrect account or password too many times'')
   \<and> \<not> re_test (re (SIGN_IN_BLOCK_PATTERNS ! 0))
      (js ''you used an incorrect account or password too many times'')
   \<and> classify SIGN_IN_BLOCK_PATTERNS
        (js ''you used an incorrect account or password too many times'')
       = Some (js ''too-many-incorrect'')
   \<and> classify SIGN_IN_BLOCK_PATTERNS (js '' welcome'') = None
   \<and> detectSignInBlocked healthyCollaborators welcomePage (freshBot (js ''a@x''))
       = (Inr False,
          snd (probeHeadings welcomePage headingSelectors [] (freshBot (js ''a@x''))))"
proof -
  let ?L = "js ''you used an incorrect account or password too many times''"
  let ?w = "freshBot (js ''a@x'')"
  have m1: "re_test (re (SIGN_IN_BLOCK_PATTERNS ! 1)) ?L"
    by (simp add: SIGN_IN_BLOCK_PATTERNS_def lits_def js_def canonicalize_def)
  have m2: "re_test (re (SIGN_IN_BLOCK_PATTERNS ! 2)) ?L"
    by (simp add: SIGN_IN_BLOCK_PATTERNS_def lits_def js_def canonicalize_def)
  have m0: "\<not> re_test (re (SIGN_IN_BLOCK_PATTERNS ! 0)) ?L"
    by (simp add: SIGN_IN_BLOCK_PATTERNS_def lits_def js_def canonicalize_def)
  have first: "\<forall>j<1. \<not> re_test (re (SIGN_IN_BLOCK_PATTERNS ! j)) ?L"
    using m0 by simp
  have len: "(1::nat) < length SIGN_IN_BLOCK_PATTERNS"
    by (simp add: SIGN_IN_BLOCK_PATTERNS_def)
  have lab: "label (SIGN_IN_BLOCK_PATTERNS ! 1) = js ''too-many-incorrect''"
    by (simp add: SIGN_IN_BLOCK_PATTERNS_def)
  have c: "classify SIGN_IN_BLOCK_PATTERNS ?L = Some (js ''too-many-incorrect'')"
    using classify_first_match_wins [of ?L "js ''too-many-incorrect''"] m1 first len lab
    by metis
  have nf: "\<not> fastPath ?w"
    by (simp add: fastPath_def freshBot_def)
  have p: "probeHeadings welcomePage headingSelectors [] ?w
             = (Inr (js '' Welcome''), snd (probeHeadings welcomePage headingSelectors [] ?w))"
    by (simp add: prod_eq_iff fixture_defs eval_defs)
  have lc: "toLowerCase healthyCollaborators (js '' Welcome'') = js '' welcome''"
    by (simp add: healthyCollaborators_def asciiLower_def js_def)
  have none: "\<forall>p\<in>set SIGN_IN_BLOCK_PATTERNS. \<not> re_test (re p) (js '' welcome'')"
    by (simp add: SIGN_IN_BLOCK_PATTERNS_def lits_def js_def canonicalize_def)
  have d: "detectSignInBlocked healthyCollaborators welcomePage ?w
             = (Inr False, snd (probeHeadings welcomePage headingSelectors [] ?w))"
    using classify_first_match_wins
            [of _ _ ?w welcomePage "js '' Welcome''"
               "snd (probeHeadings welcomePage headingSelectors [] ?w)" healthyCollaborators]
          nf p none lc
    by metis
  have cn: "classify SIGN_IN_BLOCK_PATTERNS (js '' welcome'') = None"
    using classify_first_match_wins [of "js '' welcome''"] none by metis
  show ?thesis using m1 m2 m0 c cn d by blast
qed

section \<open>A confirmed incident\<close>

text \<open>What a match does when the alert resolves, call by call.\<close>

lemma detect_on_match_effects:
  assumes "\<not> (compromisedModeActive w \<and> compromisedReason w = Some (js ''sign-in-blocked''))"
      and "probeHeadings page headingSelectors [] w = (Inr t, w1)"
      and "classify SIGN_IN_BLOCK_PATTERNS (toLowerCase c t) = Some l"
      and "email = orElse (currentAccountEmail w) (js ''unknown'')"
      and "docs = getDocsUrl c (js ''we-cant-sign-you-in'')"
      and "incident =
             \<lparr>kind = js ''We can't sign you in (blocked)'', account = email,
              details = [js ''Pattern: '' @ l],
              next = [js ''Manual recovery required before continuing''],
              docsUrl = docs\<rparr>"
      and "sendIncidentAlert c incident Warn = Resolved d"
  shows "fst (detectSignInBlocked c page w) = Inr True
       \<and> compromisedModeActive (snd (detectSignInBlocked c page w))
       \<and> compromisedReason (snd (detectSignInBlocked c page w)) = Some (js ''sign-in-blocked'')
       \<and> effects (snd (detectSignInBlocked c page w)) =
           effects w1
           @ [SendIncidentAlert incident Warn,
              StartCompromisedInterval,
              EngageGlobalStandby (js ''sign-in-blocked'') email]
           @ (case engageGlobalStandby c (js ''sign-in-blocked'') email of
                Resolved u \<Rightarrow> []
              | Rejected e \<Rightarrow>
                  [LogError (js ''LOGIN-SECURITY'') (js ''Global standby engagement failed'')
                     (isMobile w) e])
           @ [OpenDocsTab docs]
           @ (case openDocsTab c docs of
                Resolved u \<Rightarrow> []
              | Rejected e \<Rightarrow>
                  [LogError (js ''LOGIN-SECURITY'') (js ''Failed to open docs tab'')
                     (isMobile w) e])"
proof -
  have nf: "\<not> fastPath w"
    using assms(1) by (simp add: fastPath_def)
  have w1: "isMobile w1 = isMobile w"
    using probeHeadings_fields(4) [of page headingSelectors "[]" w] assms(2) by simp
  have nonempty: "l \<noteq> []"
    using table_labels_truthy [OF assms(3)] by simp
  have inc: "buildIncident (orElse (currentAccountEmail w) (js ''unknown'')) (Some l)
               (getDocsUrl c (js ''we-cant-sign-you-in'')) = incident"
    using nonempty assms(4,5,6) by (simp add: buildIncident_def)
  have a: "sendIncidentAlert c
             (buildIncident (orElse (currentAccountEmail w) (js ''unknown'')) (Some l)
                (getDocsUrl c (js ''we-cant-sign-you-in''))) Warn = Resolved d"
    using inc assms(7) by simp
  show ?thesis
    unfolding detect_on_match_resolved [OF nf assms(2) assms(3) a] inc
    using w1 assms(4,5)
    by (simp add: afterAlert_flags afterAlert_effects split: settled.splits)
qed

text \<open>
  The alert itself is awaited without a handler: were it to reject, the outer \<open>catch\<close>
  would return false before any flag is set.
\<close>

lemma detect_alert_rejection_returns_false:
  assumes "\<not> fastPath w"
      and "probeHeadings page headingSelectors [] w = (Inr t, w1)"
      and "classify SIGN_IN_BLOCK_PATTERNS (toLowerCase c t) = Some l"
      and "sendIncidentAlert c
             (buildIncident (orElse (currentAccountEmail w) (js ''unknown'')) (Some l)
                (getDocsUrl c (js ''we-cant-sign-you-in''))) Warn = Rejected e"
  shows "fst (detectSignInBlocked c page w) = Inr False
       \<and> compromisedModeActive (snd (detectSignInBlocked c page w)) = compromisedModeActive w
       \<and> globalStandby (snd (detectSignInBlocked c page w)) = globalStandby w"
proof -
  have f: "currentAccountEmail w1 = currentAccountEmail w"
          "compromisedModeActive w1 = compromisedModeActive w"
          "globalStandby w1 = globalStandby w"
    using probeHeadings_fields(1,3,5) [of page headingSelectors "[]" w] assms(2) by simp_all
  have "onMatch c (Some l) w1 =
          (Inl e, emit (SendIncidentAlert
                          (buildIncident (orElse (currentAccountEmail w) (js ''unknown''))
                             (Some l) (getDocsUrl c (js ''we-cant-sign-you-in''))) Warn) w1)"
    using assms(4) f(1) by (simp add: onMatch_def Let_def)
  then show ?thesis
    using detect_on_match [OF assms(1,2,3)] f by simp
qed


text \<open>
  Claim C10. Once a match is confirmed, a rejected standby engagement and a rejected docs
  tab are caught and logged: \<open>detectSignInBlocked\<close> still returns true, both compromised
  flags are set, and each rejection leaves its log entry.
\<close>

theorem detect_survives_standby_and_docs_failures:
  assumes "\<not> (compromisedModeActive w \<and> compromisedReason w = Some (js ''sign-in-blocked''))"
      and "probeHeadings page headingSelectors [] w = (Inr t, w1)"
      and "classify SIGN_IN_BLOCK_PATTERNS (toLowerCase c t) = Some l"
      and "sendIncidentAlert c
             (buildIncident (orElse (currentAccountEmail w) (js ''unknown'')) (Some l)
                (getDocsUrl c (js ''we-cant-sign-you-in''))) Warn = Resolved d"
  shows "fst (detectSignInBlocked c page w) = Inr True
       \<and> compromisedModeActive (snd (detectSignInBlocked c page w))
       \<and> compromisedReason (snd (detectSignInBlocked c page w)) = Some (js ''sign-in-blocked'')
       \<and> (engageGlobalStandby c (js ''sign-in-blocked'')
             (orElse (currentAccountEmail w) (js ''unknown'')) = Rejected e1
            \<longrightarrow> LogError (js ''LOGIN-SECURITY'') (js ''Global standby engagement failed'')
                  (isMobile w) e1
                \<in> set (effects (snd (detectSignInBlocked c page w))))
       \<and> (openDocsTab c (getDocsUrl c (js ''we-cant-sign-you-in'')) = Rejected e2
            \<longrightarrow> LogError (js ''LOGIN-SECURITY'') (js ''Failed to open docs tab'') (isMobile w) e2
                \<in> set (effects (snd (detectSignInBlocked c page w))))"
proof -
  have nf: "\<not> fastPath w"
    using assms(1) by (simp add: fastPath_def)
  have w1: "isMobile w1 = isMobile w"
    using probeHeadings_fields(4) [of page headingSelectors "[]" w] assms(2) by simp
  show ?thesis
    unfolding detect_on_match_resolved [OF nf assms(2) assms(3) assms(4)]
    using w1
    by (auto simp: afterAlert_flags afterAlert_effects)
qed

theorem detect_survives_standby_and_docs_failures_witness:
  "engageGlobalStandby failingCollaborators (js ''sign-in-blocked'') (js ''a@x'')
     = Rejected (Error (js ''standby failed''))
   \<and> openDocsTab failingCollaborators (js ''docs/we-cant-sign-you-in'')
     = Rejected (Error (js ''no browser''))
   \<and> fst (detectSignInBlocked failingCollaborators blockedPage (freshBot (js ''a@x''))) = Inr True
   \<and> compromisedModeActive
         (snd (detectSignInBlocked failingCollaborators blockedPage (freshBot (js ''a@x''))))
   \<and> compromisedReason
         (snd (detectSignInBlocked failingCollaborators blockedPage (freshBot (js ''a@x''))))
       = Some (js ''sign-in-blocked'')
   \<and> LogError (js ''LOGIN-SECURITY'') (js ''Global standby engagement failed'') False
         (Error (js ''standby failed''))
       \<in> set (effects
                (snd (detectSignInBlocked failingCollaborators blockedPage (freshBot (js ''a@x'')))))
   \<and> LogError (js ''LOGIN-SECURITY'') (js ''Failed to open docs tab'') False
         (Error (js ''no browser''))
       \<in> set (effects
                (snd (detectSignInBlocked failingCollaborators blockedPage (freshBot (js ''a@x'')))))"
proof -
  let ?w = "freshBot (js ''a@x'')"
  have h1: "\<not> (compromisedModeActive ?w \<and> compromisedReason ?w = Some (js ''sign-in-blocked''))"
    by (simp add: freshBot_def)
  have h2: "probeHeadings blockedPage headingSelectors [] ?w
              = (Inr (js '' We can't sign you in''),
                 snd (probeHeadings blockedPage headingSelectors [] ?w))"
    by (simp add: prod_eq_iff fixture_defs eval_defs)
  have h3: "classify SIGN_IN_BLOCK_PATTERNS
              (toLowerCase failingCollaborators (js '' We can't sign you in''))
              = Some (js ''cant-sign-in'')"
    by (simp add: failingCollaborators_def asciiLower_def SIGN_IN_BLOCK_PATTERNS_def lits_def
          js_def canonicalize_def)
  have e: "engageGlobalStandby failingCollaborators (js ''sign-in-blocked'') (js ''a@x'')
             = Rejected (Error (js ''standby failed''))"
    by (simp add: failingCollaborators_def)
  have o: "openDocsTab failingCollaborators (js ''docs/we-cant-sign-you-in'')
             = Rejected (Error (js ''no browser''))"
    by (simp add: failingCollaborators_def)
  have e': "engageGlobalStandby failingCollaborators (js ''sign-in-blocked'')
              (orElse (currentAccountEmail ?w) (js ''unknown'')) = Rejected (Error (js ''standby failed''))"
    by (simp add: failingCollaborators_def)
  have o': "openDocsTab failingCollaborators
              (getDocsUrl failingCollaborators (js ''we-cant-sign-you-in''))
              = Rejected (Error (js ''no browser''))"
    by (simp add: failingCollaborators_def)
  have m: "isMobile ?w = False"
    by (simp add: freshBot_def)
  have al: "sendIncidentAlert failingCollaborators
              (buildIncident (orElse (currentAccountEmail ?w) (js ''unknown''))
                 (Some (js ''cant-sign-in''))
                 (getDocsUrl failingCollaborators (js ''we-cant-sign-you-in''))) Warn
              = Resolved Failure"
    by (simp add: failingCollaborators_def)
  show ?thesis
    using detect_survives_standby_and_docs_failures
            [OF h1 h2 h3 al, of "Error (js ''standby failed'')" "Error (js ''no browser'')"]
          e o e' o' m
    by simp
qed

section \<open>Repeated calls and excluded headings\<close>

lemma detectRepeatedly_fast_path:
  "fastPath w \<Longrightarrow> detectRepeatedly calls w = (replicate (length calls) (Inr True), w)"
proof (induction calls)
  case Nil
  show ?case by simp
next
  case (Cons call calls)
  then show ?case
    by (cases call) (simp add: detectSignInBlocked_def)
qed

text \<open>
  Claim C8. After a call of \<open>detectSignInBlocked\<close> that returned true, every further call
  returns true and leaves the bot as it is, whatever page and collaborators it meets; from
  the state before the first call to the end of the run at most one alert is sent.
\<close>

theorem repeated_detect_true_and_one_alert:
  assumes "detectSignInBlocked c page w = (Inr True, w1)"
  shows "detectRepeatedly calls w1 = (replicate (length calls) (Inr True), w1)
       \<and> alertsSent (snd (detectRepeatedly calls w1)) \<le> alertsSent w + 1"
proof -
  have fp: "fastPath w1"
    using detect_true_sets_fast_path [of c page w] assms by simp
  have rep: "detectRepeatedly calls w1 = (replicate (length calls) (Inr True), w1)"
    using detectRepeatedly_fast_path [OF fp] .
  have "alertsSent w1 \<le> alertsSent w + 1"
    using detect_alerts [of c page w] assms by simp
  with rep show ?thesis by simp
qed

theorem repeated_detect_true_and_one_alert_witness:
  "detectSignInBlocked healthyCollaborators blockedPage (freshBot (js ''a@x''))
     = (Inr True, compromisedBot)
   \<and> detectRepeatedly
        [(healthyCollaborators, blockedPage), (failingCollaborators, welcomePage),
         (failingCollaborators, blockedPage)] compromisedBot
     = ([Inr True, Inr True, Inr True], compromisedBot)
   \<and> alertsSent (freshBot (js ''a@x'')) = 0
   \<and> alertsSent
        (snd (detectRepeatedly
                [(healthyCollaborators, blockedPage), (failingCollaborators, welcomePage),
                 (failingCollaborators, blockedPage)] compromisedBot)) \<le> 1"
proof -
  have r: "fst (detectSignInBlocked healthyCollaborators blockedPage (freshBot (js ''a@x'')))
             = Inr True"
    by (simp add: fixture_defs eval_defs)
  have h: "detectSignInBlocked healthyCollaborators blockedPage (freshBot (js ''a@x''))
             = (Inr True, compromisedBot)"
    using r by (simp add: prod_eq_iff compromisedBot_def)
  have z: "alertsSent (freshBot (js ''a@x'')) = 0"
    by (simp add: alertsSent_def freshBot_def)
  note t = repeated_detect_true_and_one_alert
        [OF h, of "[(healthyCollaborators, blockedPage), (failingCollaborators, welcomePage),
                    (failingCollaborators, blockedPage)]"]
  have a: "detectRepeatedly
        [(healthyCollaborators, blockedPage), (failingCollaborators, welcomePage),
         (failingCollaborators, blockedPage)] compromisedBot
     = ([Inr True, Inr True, Inr True], compromisedBot)"
    using t [THEN conjunct1] by (simp del: detectRepeatedly.simps)
  have b: "alertsSent
        (snd (detectRepeatedly
                [(healthyCollaborators, blockedPage), (failingCollaborators, welcomePage),
                 (failingCollaborators, blockedPage)] compromisedBot)) \<le> 1"
    using t [THEN conjunct2] z by (simp del: detectRepeatedly.simps)
  show ?thesis
    using h z a b by blast
qed

lemma trim_unchanged:
  assumes "s \<noteq> []" and "\<not> isWhiteSpace (hd s)" and "\<not> isWhiteSpace (last s)"
  shows "trim s = s"
proof -
  have a: "dropWhile isWhiteSpace s = s"
    using assms(1,2) by (cases s) simp_all
  have b: "dropWhile isWhiteSpace (rev s) = rev s"
  proof (cases "rev s")
    case Nil
    then show ?thesis by simp
  next
    case (Cons a list)
    have "hd (rev s) = last s"
      by (simp add: hd_rev)
    then have r: "rev s = last s # list"
      using Cons by simp
    show ?thesis
      unfolding r using assms(3) by simp
  qed
  show ?thesis
    by (simp add: trim_def a b)
qed

lemma addHeading_share:
  "waitForSelector page sel 600 = Resolved (Some h) \<Longrightarrow> textContent h = Resolved r \<Longrightarrow>
   addHeading acc r = acc @ headingShare page sel"
  by (simp add: addHeading_def headingShare_def Let_def)

lemma probeHeadings_text:
  "fst (probeHeadings page sels acc w) = Inr t \<Longrightarrow>
   t = acc @ concat (map (headingShare page) sels)"
proof (induction sels arbitrary: acc w)
  case Nil
  then show ?case by simp
next
  case (Cons sel sels)
  show ?case
  proof (cases "waitForSelector page sel 600")
    case (Rejected e)
    then show ?thesis
      using Cons.prems Cons.IH [of acc "emit (WaitForSelector sel 600) w"]
      by (simp add: Let_def headingShare_def)
  next
    case (Resolved el)
    note found = Resolved
    show ?thesis
    proof (cases el)
      case None
      then show ?thesis
        using found Cons.prems Cons.IH [of acc "emit (WaitForSelector sel 600) w"]
        by (simp add: Let_def headingShare_def)
    next
      case (Some h)
      show ?thesis
      proof (cases "textContent h")
        case (Rejected e)
        then show ?thesis
          using found Some Cons.prems by (simp add: Let_def)
      next
        case (Resolved r)
        have "addHeading acc r = acc @ headingShare page sel"
          using addHeading_share found Some Resolved by simp
        then show ?thesis
          using found Some Resolved Cons.prems
            Cons.IH [of "addHeading acc r"
                        "emit (TextContent sel) (emit (WaitForSelector sel 600) w)"]
          by (simp add: Let_def)
      qed
    qed
  qed
qed

lemma probeHeadings_completes:
  assumes "\<forall>sel\<in>set sels. \<forall>h e. waitForSelector page sel 600 = Resolved (Some h) \<longrightarrow>
             textContent h \<noteq> Rejected e"
  shows "\<exists>t. fst (probeHeadings page sels acc w) = Inr t"
  using assms
proof (induction sels arbitrary: acc w)
  case Nil
  show ?case by simp
next
  case (Cons sel sels)
  have ih: "\<exists>t. fst (probeHeadings page sels a v) = Inr t" for a v
    using Cons by simp
  show ?case
  proof (cases "waitForSelector page sel 600")
    case (Rejected e)
    then show ?thesis by (simp add: Let_def ih)
  next
    case (Resolved el)
    note found = Resolved
    show ?thesis
    proof (cases el)
      case None
      with found show ?thesis by (simp add: Let_def ih)
    next
      case (Some h)
      show ?thesis
      proof (cases "textContent h")
        case (Rejected e)
        then show ?thesis
          using found Some Cons.prems by auto
      next
        case (Resolved r)
        then show ?thesis
          using found Some by (simp add: Let_def ih)
      qed
    qed
  qed
qed

text \<open>
  Claim C9. The text a completed probing run returns is the heading texts in the order of
  the selectors, each one trimmed and put after a space, and only those that are non-empty
  after trimming and shorter than 300 code units: a heading of 300 code units or more adds
  nothing, whatever else has been gathered. A run completes exactly when no found heading
  fails to give its text, and it has then waited for the four selectors in their fixed
  order, 600 ms each. When every heading that is found has 300 code units or more, nothing
  is aggregated and \<open>detectSignInBlocked\<close> returns false without alert or flag.
\<close>

theorem heading_contributes_only_if_short:
  "(fst (probeHeadings page headingSelectors [] w) = Inr t \<longrightarrow>
      t = headingShare page (js ''[data-testid=\"title\"]'') @ headingShare page (js ''h1'')
          @ headingShare page (js ''div[role=\"heading\"]'')
          @ headingShare page (js ''div.text-title''))
   \<and> (waitForSelector page sel 600 = Resolved (Some h) \<and> textContent h = Resolved r \<longrightarrow>
        headingShare page sel =
          (if trim (orElse r []) \<noteq> [] \<and> length (trim (orElse r [])) < 300
           then js '' '' @ trim (orElse r []) else []))
   \<and> (headingShare page sel \<noteq> [] \<longrightarrow>
        (\<exists>h r. waitForSelector page sel 600 = Resolved (Some h) \<and> textContent h = Resolved r
           \<and> trim (orElse r []) \<noteq> [] \<and> length (trim (orElse r [])) < 300))
   \<and> ((\<exists>t. fst (probeHeadings page headingSelectors [] w) = Inr t) \<longleftrightarrow>
        (\<forall>sel\<in>set headingSelectors. \<forall>h e.
           waitForSelector page sel 600 = Resolved (Some h) \<longrightarrow> textContent h \<noteq> Rejected e))
   \<and> (fst (probeHeadings page headingSelectors acc w) = Inr t \<longrightarrow>
        filter isWait (effects (snd (probeHeadings page headingSelectors acc w)))
          = filter isWait (effects w)
            @ [WaitForSelector (js ''[data-testid=\"title\"]'') 600,
               WaitForSelector (js ''h1'') 600,
               WaitForSelector (js ''div[role=\"heading\"]'') 600,
               WaitForSelector (js ''div.text-title'') 600])
   \<and> (\<not> (compromisedModeActive w \<and> compromisedReason w = Some (js ''sign-in-blocked''))
        \<and> toLowerCase c [] = []
        \<and> (\<forall>sel\<in>set headingSelectors. \<forall>h.
              waitForSelector page sel 600 = Resolved (Some h) \<longrightarrow>
              (\<exists>s. textContent h = Resolved (Some s) \<and> 300 \<le> length (trim s)))
        \<longrightarrow> fst (detectSignInBlocked c page w) = Inr False
            \<and> alertsSent (snd (detectSignInBlocked c page w)) = alertsSent w
            \<and> compromisedModeActive (snd (detectSignInBlocked c page w))
                = compromisedModeActive w)"
proof -
  have a: "fst (probeHeadings page headingSelectors [] w) = Inr t \<longrightarrow>
      t = headingShare page (js ''[data-testid=\"title\"]'') @ headingShare page (js ''h1'')
          @ headingShare page (js ''div[role=\"heading\"]'')
          @ headingShare page (js ''div.text-title'')"
  proof
    assume "fst (probeHeadings page headingSelectors [] w) = Inr t"
    from probeHeadings_text [OF this]
    show "t = headingShare page (js ''[data-testid=\"title\"]'') @ headingShare page (js ''h1'')
          @ headingShare page (js ''div[role=\"heading\"]'')
          @ headingShare page (js ''div.text-title'')"
      by (simp add: headingSelectors_def)
  qed
  have b: "waitForSelector page sel 600 = Resolved (Some h) \<and> textContent h = Resolved r \<longrightarrow>
        headingShare page sel =
          (if trim (orElse r []) \<noteq> [] \<and> length (trim (orElse r [])) < 300
           then js '' '' @ trim (orElse r []) else [])"
    by (simp add: headingShare_def Let_def)
  have b': "headingShare page sel \<noteq> [] \<longrightarrow>
        (\<exists>h r. waitForSelector page sel 600 = Resolved (Some h) \<and> textContent h = Resolved r
           \<and> trim (orElse r []) \<noteq> [] \<and> length (trim (orElse r [])) < 300)"
    by (auto simp: headingShare_def Let_def split: settled.splits option.splits if_splits)
  have e: "(\<exists>t. fst (probeHeadings page headingSelectors [] w) = Inr t) \<longleftrightarrow>
        (\<forall>sel\<in>set headingSelectors. \<forall>h e.
           waitForSelector page sel 600 = Resolved (Some h) \<longrightarrow> textContent h \<noteq> Rejected e)"
  proof
    assume l: "\<exists>t. fst (probeHeadings page headingSelectors [] w) = Inr t"
    show "\<forall>sel\<in>set headingSelectors. \<forall>h e.
           waitForSelector page sel 600 = Resolved (Some h) \<longrightarrow> textContent h \<noteq> Rejected e"
    proof (intro ballI allI impI notI)
      fix sel h e
      assume "sel \<in> set headingSelectors" "waitForSelector page sel 600 = Resolved (Some h)"
             "textContent h = Rejected e"
      from probeHeadings_raises [OF this, of "[]" w] l show False by auto
    qed
  next
    assume "\<forall>sel\<in>set headingSelectors. \<forall>h e.
           waitForSelector page sel 600 = Resolved (Some h) \<longrightarrow> textContent h \<noteq> Rejected e"
    from probeHeadings_completes [OF this]
    show "\<exists>t. fst (probeHeadings page headingSelectors [] w) = Inr t" .
  qed
  have c: "fst (probeHeadings page headingSelectors acc w) = Inr t \<longrightarrow>
        filter isWait (effects (snd (probeHeadings page headingSelectors acc w)))
          = filter isWait (effects w)
            @ [WaitForSelector (js ''[data-testid=\"title\"]'') 600,
               WaitForSelector (js ''h1'') 600,
               WaitForSelector (js ''div[role=\"heading\"]'') 600,
               WaitForSelector (js ''div.text-title'') 600]"
  proof
    assume "fst (probeHeadings page headingSelectors acc w) = Inr t"
    from probeHeadings_waits [OF this]
    show "filter isWait (effects (snd (probeHeadings page headingSelectors acc w)))
          = filter isWait (effects w)
            @ [WaitForSelector (js ''[data-testid=\"title\"]'') 600,
               WaitForSelector (js ''h1'') 600,
               WaitForSelector (js ''div[role=\"heading\"]'') 600,
               WaitForSelector (js ''div.text-title'') 600]"
      by (simp add: headingSelectors_def)
  qed
  have d: "fst (detectSignInBlocked c page w) = Inr False
            \<and> alertsSent (snd (detectSignInBlocked c page w)) = alertsSent w
            \<and> compromisedModeActive (snd (detectSignInBlocked c page w))
                = compromisedModeActive w"
    if nf: "\<not> (compromisedModeActive w \<and> compromisedReason w = Some (js ''sign-in-blocked''))"
      and lc: "toLowerCase c [] = []"
      and ex: "\<forall>sel\<in>set headingSelectors. \<forall>h.
              waitForSelector page sel 600 = Resolved (Some h) \<longrightarrow>
              (\<exists>s. textContent h = Resolved (Some s) \<and> 300 \<le> length (trim s))"
  proof -
    have nf': "\<not> fastPath w"
      using nf by (simp add: fastPath_def)
    have p: "probeHeadings page headingSelectors [] w
               = (Inr [], snd (probeHeadings page headingSelectors [] w))"
      using probeHeadings_all_excluded [OF ex, of "[]" w] by (simp add: prod_eq_iff)
    have cl: "classify SIGN_IN_BLOCK_PATTERNS (toLowerCase c []) = None"
      using lc classify_empty_text by simp
    have dd: "detectSignInBlocked c page w
                = (Inr False, snd (probeHeadings page headingSelectors [] w))"
      using detect_on_no_match [OF nf' p cl] .
    show ?thesis
      unfolding dd
      by (simp add: alertsSent_def probeHeadings_no_alert probeHeadings_fields(1))
  qed
  show ?thesis
    using a b b' e c d by blast
qed

theorem heading_contributes_only_if_short_witness:
  "length (trim (js ''We can't sign you in'' @ replicate 300 120)) = 320
   \<and> headingShare mixedPage (js ''[data-testid=\"title\"]'') = []
   \<and> headingShare mixedPage (js ''h1'') = js '' Welcome''
   \<and> fst (probeHeadings mixedPage headingSelectors [] (freshBot (js ''a@x'')))
       = Inr (js '' Welcome'')
   \<and> filter isWait
        (effects (snd (probeHeadings mixedPage headingSelectors [] (freshBot (js ''a@x'')))))
       = [WaitForSelector (js ''[data-testid=\"title\"]'') 600,
          WaitForSelector (js ''h1'') 600,
          WaitForSelector (js ''div[role=\"heading\"]'') 600,
          WaitForSelector (js ''div.text-title'') 600]
   \<and> toLowerCase healthyCollaborators [] = []
   \<and> fst (detectSignInBlocked healthyCollaborators longHeadingPage (freshBot (js ''a@x'')))
       = Inr False
   \<and> alertsSent (snd (detectSignInBlocked healthyCollaborators longHeadingPage
                         (freshBot (js ''a@x'')))) = 0"
proof -
  let ?long = "js ''We can't sign you in'' @ replicate 300 120"
  let ?w = "freshBot (js ''a@x'')"
  let ?title = "js ''[data-testid=\"title\"]''"
  have tl: "trim ?long = ?long"
    by (rule trim_unchanged) (simp_all add: js_def isWhiteSpace_def)
  have len: "length (trim ?long) = 320"
    unfolding tl by (simp add: js_def)
  have ts: "trim (js ''  Welcome '') = js ''Welcome''"
    by (simp add: trim_def js_def isWhiteSpace_def)
  have w1: "waitForSelector mixedPage ?title 600 = Resolved (Some (heading ?long))"
    by (simp add: mixedPage_def pageWith_def)
  have w2: "waitForSelector mixedPage (js ''h1'') 600 = Resolved (Some (heading (js ''  Welcome '')))"
    by (simp add: mixedPage_def pageWith_def js_def)
  have tc: "textContent (heading x) = Resolved (Some x)" for x
    by (simp add: heading_def)
  note share = heading_contributes_only_if_short
                 [THEN conjunct2, THEN conjunct1, rule_format, OF conjI]
  have nonempty: "?long \<noteq> []"
    by (simp add: js_def)
  have sh1: "headingShare mixedPage ?title = []"
    using share [OF w1 tc] len nonempty by (simp add: tl)
  have ne2: "js ''  Welcome '' \<noteq> []" "js ''Welcome'' \<noteq> []" "length (js ''Welcome'') < 300"
    by (simp_all add: js_def)
  have sh2: "headingShare mixedPage (js ''h1'') = js '' Welcome''"
    using share [OF w2 tc] ne2 by (simp add: ts) (simp add: js_def)
  have sh3: "headingShare mixedPage (js ''div[role=\"heading\"]'') = []"
    by (simp add: headingShare_def mixedPage_def pageWith_def js_def)
  have sh4: "headingShare mixedPage (js ''div.text-title'') = []"
    by (simp add: headingShare_def mixedPage_def pageWith_def js_def)
  have readable: "\<forall>sel\<in>set headingSelectors. \<forall>h e.
           waitForSelector mixedPage sel 600 = Resolved (Some h) \<longrightarrow> textContent h \<noteq> Rejected e"
    unfolding mixedPage_def pageWith_def heading_def
    by (auto split: option.splits if_splits)
  note completes = heading_contributes_only_if_short
                     [where page = mixedPage and w = "?w",
                      THEN conjunct2, THEN conjunct2, THEN conjunct2, THEN conjunct1]
  obtain t where t: "fst (probeHeadings mixedPage headingSelectors [] ?w) = Inr t"
    using completes readable by blast
  note closed = heading_contributes_only_if_short
                  [where page = mixedPage and w = "?w" and t = t, THEN conjunct1, rule_format, OF t]
  have gathered: "fst (probeHeadings mixedPage headingSelectors [] ?w) = Inr (js '' Welcome'')"
    using t closed sh1 sh2 sh3 sh4 by simp
  note order = heading_contributes_only_if_short
                 [where page = mixedPage and w = "?w" and acc = "[]" and t = "js '' Welcome''",
                  THEN conjunct2, THEN conjunct2, THEN conjunct2, THEN conjunct2,
                  THEN conjunct1, rule_format, OF gathered]
  have waits: "filter isWait (effects (snd (probeHeadings mixedPage headingSelectors [] ?w)))
       = [WaitForSelector (js ''[data-testid=\"title\"]'') 600,
          WaitForSelector (js ''h1'') 600,
          WaitForSelector (js ''div[role=\"heading\"]'') 600,
          WaitForSelector (js ''div.text-title'') 600]"
    using order by (simp add: freshBot_def)
  have nf: "\<not> (compromisedModeActive ?w \<and> compromisedReason ?w = Some (js ''sign-in-blocked''))"
    by (simp add: freshBot_def)
  have lc: "toLowerCase healthyCollaborators [] = []"
    by (simp add: healthyCollaborators_def asciiLower_def)
  have ex: "\<forall>sel\<in>set headingSelectors. \<forall>h.
              waitForSelector longHeadingPage sel 600 = Resolved (Some h) \<longrightarrow>
              (\<exists>s. textContent h = Resolved (Some s) \<and> 300 \<le> length (trim s))"
    unfolding longHeadingPage_def pageWith_def heading_def
    using len by (auto split: option.splits)
  have z: "alertsSent ?w = 0"
    by (simp add: alertsSent_def freshBot_def)
  note alone = heading_contributes_only_if_short
                 [where page = longHeadingPage and w = "?w" and c = healthyCollaborators,
                  THEN conjunct2, THEN conjunct2, THEN conjunct2, THEN conjunct2,
                  THEN conjunct2, rule_format]
  have d: "fst (detectSignInBlocked healthyCollaborators longHeadingPage ?w) = Inr False
         \<and> alertsSent (snd (detectSignInBlocked healthyCollaborators longHeadingPage ?w)) = 0"
    using alone nf lc ex z by simp
  show ?thesis
    using len sh1 sh2 gathered waits lc d by blast
qed

section \<open>Where the detector departs from the specification\<close>

lemma detect_scans:
  assumes "\<not> fastPath w"
  shows "\<exists>es. effects (snd (detectSignInBlocked c page w))
              = effects w @ WaitForSelector (js ''[data-testid=\"title\"]'') 600 # es"
proof -
  let ?w1 = "snd (probeHeadings page headingSelectors [] w)"
  obtain es1 where e1:
    "effects ?w1 = effects w @ WaitForSelector (js ''[data-testid=\"title\"]'') 600 # es1"
    using probeHeadings_first_wait
            [of page "js ''[data-testid=\"title\"]''"
                "[js ''h1'', js ''div[role=\"heading\"]'', js ''div.text-title'']" "[]" w]
    by (auto simp: headingSelectors_def)
  have more: "\<exists>es. effects (snd (onMatch c m ?w1))
                 = effects w @ WaitForSelector (js ''[data-testid=\"title\"]'') 600 # es" for m
  proof -
    obtain es where "effects (snd (onMatch c m ?w1)) = effects ?w1 @ es"
      using onMatch_cases [of c m ?w1] by (auto simp: afterAlert_effects)
    then have "effects (snd (onMatch c m ?w1))
                 = effects w @ WaitForSelector (js ''[data-testid=\"title\"]'') 600 # (es1 @ es)"
      using e1 by simp
    then show ?thesis by blast
  qed
  from detect_state_cases [OF assms, of c page] show ?thesis
  proof
    assume "snd (detectSignInBlocked c page w) = ?w1"
    then show ?thesis using e1 by simp
  next
    assume "\<exists>l. snd (detectSignInBlocked c page w) = snd (onMatch c (Some l) ?w1)
              \<and> (fst (detectSignInBlocked c page w) = Inr True
                   \<longrightarrow> fst (onMatch c (Some l) ?w1) = Inr True)"
    then obtain l where "snd (detectSignInBlocked c page w) = snd (onMatch c (Some l) ?w1)"
      by blast
    then show ?thesis using more [of "Some l"] by simp
  qed
qed

lemma probeHeadings_append:
  "probeHeadings page (pre @ rest) acc w =
     (case probeHeadings page pre acc w of
        (Inl e, w1) \<Rightarrow> (Inl e, w1)
      | (Inr t, w1) \<Rightarrow> probeHeadings page rest t w1)"
proof (induction pre arbitrary: acc w)
  case Nil
  show ?case by simp
next
  case (Cons sel pre)
  show ?case
  proof (cases "waitForSelector page sel 600")
    case (Rejected e)
    then show ?thesis by (simp add: Let_def Cons.IH)
  next
    case (Resolved el)
    note found = Resolved
    show ?thesis
    proof (cases el)
      case None
      with found show ?thesis by (simp add: Let_def Cons.IH)
    next
      case (Some h)
      with found show ?thesis
        by (cases "textContent h") (simp_all add: Let_def Cons.IH)
    qed
  qed
qed

lemma probeHeadings_stops:
  assumes "waitForSelector page sel 600 = Resolved (Some h)"
      and "textContent h = Rejected e"
  shows "probeHeadings page (sel # sels) acc w =
           (Inl e, w\<lparr>effects := effects w @ [WaitForSelector sel 600, TextContent sel]\<rparr>)"
  using assms by (simp add: Let_def emit_def)

lemma detect_keeps_flag:
  "compromisedModeActive w \<Longrightarrow> compromisedModeActive (snd (detectSignInBlocked c page w))"
proof (cases "fastPath w")
  case True
  assume "compromisedModeActive w"
  with True show ?thesis by (simp add: detectSignInBlocked_def)
next
  case False
  assume a: "compromisedModeActive w"
  let ?w1 = "snd (probeHeadings page headingSelectors [] w)"
  have same: "compromisedModeActive ?w1"
    using a by (simp add: probeHeadings_fields)
  have up: "compromisedModeActive (snd (onMatch c m ?w1))" for m
    using onMatch_cases [of c m ?w1] same by (auto simp: afterAlert_flags)
  show ?thesis
    using detect_state_cases [OF False, of c page] same up by auto
qed

lemma detect_keeps_reason:
  "compromisedReason (snd (detectSignInBlocked c page w)) = compromisedReason w
   \<or> compromisedReason (snd (detectSignInBlocked c page w)) = Some (js ''sign-in-blocked'')"
proof (cases "fastPath w")
  case True
  then show ?thesis by (simp add: detectSignInBlocked_def)
next
  case False
  let ?w1 = "snd (probeHeadings page headingSelectors [] w)"
  have same: "compromisedReason ?w1 = compromisedReason w"
    by (simp add: probeHeadings_fields)
  have up: "compromisedReason (snd (onMatch c m ?w1)) = compromisedReason w
            \<or> compromisedReason (snd (onMatch c m ?w1)) = Some (js ''sign-in-blocked'')" for m
    using onMatch_cases [of c m ?w1] same by (auto simp: afterAlert_flags)
  from detect_state_cases [OF False, of c page] show ?thesis
  proof
    assume "snd (detectSignInBlocked c page w) = ?w1"
    then show ?thesis using same by simp
  next
    assume "\<exists>l. snd (detectSignInBlocked c page w) = snd (onMatch c (Some l) ?w1)
              \<and> (fst (detectSignInBlocked c page w) = Inr True
                   \<longrightarrow> fst (onMatch c (Some l) ?w1) = Inr True)"
    then obtain l where "snd (detectSignInBlocked c page w) = snd (onMatch c (Some l) ?w1)"
      by blast
    then show ?thesis using up [of "Some l"] by simp
  qed
qed

text \<open>
  Claim C2 as stated fails: the fast path compares no account. An incident is confirmed
  while the bot works on \<open>a@x\<close>; the bot moves on to \<open>b@x\<close>; on a page with no blocking
  text \<open>detectSignInBlocked\<close> returns true at once and leaves the bot untouched.
\<close>

theorem fast_path_taken_for_other_account:
  "SendIncidentAlert
      \<lparr>kind = js ''We can't sign you in (blocked)'', account = js ''a@x'',
       details = [js ''Pattern: cant-sign-in''],
       next = [js ''Manual recovery required before continuing''],
       docsUrl = js ''docs/we-cant-sign-you-in''\<rparr> Warn
     \<in> set (effects nextAccountBot)
   \<and> globalStandby nextAccountBot = Some (js ''sign-in-blocked'', js ''a@x'')
   \<and> currentAccountEmail nextAccountBot = Some (js ''b@x'')
   \<and> js ''a@x'' \<noteq> js ''b@x''
   \<and> detectSignInBlocked healthyCollaborators welcomePage nextAccountBot
       = (Inr True, nextAccountBot)"
proof -
  have r: "fst (detectSignInBlocked healthyCollaborators blockedPage (freshBot (js ''a@x'')))
             = Inr True"
    by (simp add: fixture_defs eval_defs)
  have fp: "fastPath compromisedBot"
    unfolding compromisedBot_def using detect_true_sets_fast_path [OF r] .
  then have fp': "fastPath nextAccountBot"
    by (simp add: fastPath_def nextAccountBot_def)
  have d: "detectSignInBlocked healthyCollaborators welcomePage nextAccountBot
             = (Inr True, nextAccountBot)"
    using fp' by (simp add: detectSignInBlocked_def)
  have g: "globalStandby compromisedBot = Some (js ''sign-in-blocked'', js ''a@x'')"
    by (simp add: fixture_defs eval_defs)
  have a: "SendIncidentAlert
      \<lparr>kind = js ''We can't sign you in (blocked)'', account = js ''a@x'',
       details = [js ''Pattern: cant-sign-in''],
       next = [js ''Manual recovery required before continuing''],
       docsUrl = js ''docs/we-cant-sign-you-in''\<rparr> Warn
     \<in> set (effects compromisedBot)"
    by (simp add: fixture_defs eval_defs)
  have n: "js ''a@x'' \<noteq> js ''b@x''"
    by (simp add: js_def)
  show ?thesis
    using d g a n by (simp add: nextAccountBot_def)
qed

text \<open>
  Claim C2, amended. The fast path depends on the two flags alone. When
  \<open>compromisedModeActive\<close> is set and \<open>compromisedReason\<close> is \<open>sign-in-blocked\<close>,
  \<open>detectSignInBlocked\<close> returns true without any call, whatever the current account is.
  Otherwise it starts scanning: its first call waits for the first heading selector.
\<close>

theorem fast_path_depends_on_flags_only:
  "(compromisedModeActive w \<and> compromisedReason w = Some (js ''sign-in-blocked'') \<longrightarrow>
      detectSignInBlocked c page (w\<lparr>currentAccountEmail := a\<rparr>)
        = (Inr True, w\<lparr>currentAccountEmail := a\<rparr>))
   \<and> (\<not> (compromisedModeActive w \<and> compromisedReason w = Some (js ''sign-in-blocked'')) \<longrightarrow>
        (\<exists>es. effects (snd (detectSignInBlocked c page w))
               = effects w @ WaitForSelector (js ''[data-testid=\"title\"]'') 600 # es))"
proof -
  have a: "detectSignInBlocked c page (w\<lparr>currentAccountEmail := a\<rparr>)
             = (Inr True, w\<lparr>currentAccountEmail := a\<rparr>)"
    if "compromisedModeActive w \<and> compromisedReason w = Some (js ''sign-in-blocked'')"
    using that by (simp add: detectSignInBlocked_def fastPath_def)
  have b: "\<exists>es. effects (snd (detectSignInBlocked c page w))
               = effects w @ WaitForSelector (js ''[data-testid=\"title\"]'') 600 # es"
    if "\<not> (compromisedModeActive w \<and> compromisedReason w = Some (js ''sign-in-blocked''))"
    using that detect_scans [of w c page] by (simp add: fastPath_def)
  show ?thesis
    using a b by blast
qed

theorem fast_path_depends_on_flags_only_witness:
  "compromisedModeActive compromisedBot
   \<and> compromisedReason compromisedBot = Some (js ''sign-in-blocked'')
   \<and> detectSignInBlocked failingCollaborators blockedPage
        (compromisedBot\<lparr>currentAccountEmail := Some (js ''b@x'')\<rparr>)
       = (Inr True, compromisedBot\<lparr>currentAccountEmail := Some (js ''b@x'')\<rparr>)
   \<and> compromisedModeActive (freshBot (js ''a@x'')) = False
   \<and> hd (effects (snd (detectSignInBlocked healthyCollaborators welcomePage (freshBot (js ''a@x''))))) 
       = WaitForSelector (js ''[data-testid=\"title\"]'') 600"
proof -
  have r: "fst (detectSignInBlocked healthyCollaborators blockedPage (freshBot (js ''a@x'')))
             = Inr True"
    by (simp add: fixture_defs eval_defs)
  have fp: "fastPath compromisedBot"
    unfolding compromisedBot_def using detect_true_sets_fast_path [OF r] .
  then have h: "compromisedModeActive compromisedBot
                \<and> compromisedReason compromisedBot = Some (js ''sign-in-blocked'')"
    by (simp add: fastPath_def)
  note fast = fast_path_depends_on_flags_only
                [of compromisedBot failingCollaborators blockedPage "Some (js ''b@x'')",
                 THEN conjunct1, rule_format, OF h]
  have n: "\<not> (compromisedModeActive (freshBot (js ''a@x''))
               \<and> compromisedReason (freshBot (js ''a@x'')) = Some (js ''sign-in-blocked''))"
    by (simp add: freshBot_def)
  note slow = fast_path_depends_on_flags_only
                [of "freshBot (js ''a@x'')" healthyCollaborators welcomePage,
                 THEN conjunct2, rule_format, OF n]
  have e: "effects (freshBot (js ''a@x'')) = []"
    by (simp add: freshBot_def)
  have s: "hd (effects (snd (detectSignInBlocked healthyCollaborators welcomePage
                               (freshBot (js ''a@x'')))))
             = WaitForSelector (js ''[data-testid=\"title\"]'') 600"
    using slow e by auto
  have f: "compromisedModeActive (freshBot (js ''a@x'')) = False"
    by (simp add: freshBot_def)
  show ?thesis
    using h fast f s by blast
qed

text \<open>
  Claim C4 as stated fails: an error while reading a found heading's text is not confined
  to that probe. The title heading carries a blocking text and the \<open>h1\<close> element rejects
  \<open>textContent\<close>: the detector returns false. Had the \<open>h1\<close> probe counted as a
  non-match only, as on the page without that element, it would have returned true.
\<close>

theorem textContent_rejection_aborts_detect:
  "waitForSelector racingPage (js ''h1'') 600 = Resolved (Some detachedHeading)
   \<and> textContent detachedHeading = Rejected (Error (js ''Execution context was destroyed''))
   \<and> waitForSelector racingPageWithoutH1 (js ''h1'') 600 = Rejected timeoutError
   \<and> fst (detectSignInBlocked healthyCollaborators racingPage (freshBot (js ''a@x'')))
       = Inr False
   \<and> fst (detectSignInBlocked healthyCollaborators racingPageWithoutH1 (freshBot (js ''a@x'')))
       = Inr True"
proof -
  have a: "waitForSelector racingPage (js ''h1'') 600 = Resolved (Some detachedHeading)"
    by (simp add: racingPage_def pageWith_def js_def)
  have b: "textContent detachedHeading = Rejected (Error (js ''Execution context was destroyed''))"
    by (simp add: detachedHeading_def)
  have c: "waitForSelector racingPageWithoutH1 (js ''h1'') 600 = Rejected timeoutError"
    by (simp add: racingPageWithoutH1_def pageWith_def js_def)
  have d: "fst (detectSignInBlocked healthyCollaborators racingPage (freshBot (js ''a@x'')))
             = Inr False"
    by (simp add: fixture_defs eval_defs)
  have e: "fst (detectSignInBlocked healthyCollaborators racingPageWithoutH1
                  (freshBot (js ''a@x''))) = Inr True"
    by (simp add: fixture_defs eval_defs)
  show ?thesis
    using a b c d e by blast
qed

text \<open>
  Claim C4, amended. \<open>detectSignInBlocked\<close> never throws: it always returns a boolean. A
  rejected \<open>waitForSelector\<close> is a non-match for that probe only: the loop goes on to the
  next selector with the text gathered so far. A rejected \<open>textContent\<close> on a found heading
  stops the loop there: the remaining selectors are not waited for, and the detection ends
  with false, the two calls of that probe being the last ones made: no alert, no flag, no
  standby. Only \<open>checkAccountLocked\<close> throws, and it does so exactly when its selector is
  found.
\<close>

theorem detect_never_raises:
  "(\<exists>b. fst (detectSignInBlocked c page w) = Inr b)
   \<and> (waitForSelector page sel 600 = Rejected e \<longrightarrow>
        probeHeadings page (sel # sels) acc w
          = probeHeadings page sels acc (w\<lparr>effects := effects w @ [WaitForSelector sel 600]\<rparr>))
   \<and> (waitForSelector page sel 600 = Resolved (Some h) \<and> textContent h = Rejected e \<longrightarrow>
        probeHeadings page (sel # sels) acc w
          = (Inl e, w\<lparr>effects := effects w @ [WaitForSelector sel 600, TextContent sel]\<rparr>))
   \<and> (\<not> (compromisedModeActive w \<and> compromisedReason w = Some (js ''sign-in-blocked''))
        \<and> headingSelectors = pre @ sel # post
        \<and> probeHeadings page pre [] w = (Inr t, w1)
        \<and> waitForSelector page sel 600 = Resolved (Some h)
        \<and> textContent h = Rejected e
        \<longrightarrow> detectSignInBlocked c page w
              = (Inr False,
                 w1\<lparr>effects := effects w1 @ [WaitForSelector sel 600, TextContent sel]\<rparr>))
   \<and> (\<not> (compromisedModeActive w \<and> compromisedReason w = Some (js ''sign-in-blocked''))
        \<and> sel \<in> set headingSelectors
        \<and> waitForSelector page sel 600 = Resolved (Some h)
        \<and> textContent h = Rejected e
        \<longrightarrow> fst (detectSignInBlocked c page w) = Inr False
            \<and> alertsSent (snd (detectSignInBlocked c page w)) = alertsSent w
            \<and> compromisedModeActive (snd (detectSignInBlocked c page w))
                = compromisedModeActive w
            \<and> compromisedReason (snd (detectSignInBlocked c page w)) = compromisedReason w
            \<and> globalStandby (snd (detectSignInBlocked c page w)) = globalStandby w)
   \<and> ((\<exists>x. fst (checkAccountLocked page w) = Inl x)
        \<longleftrightarrow> (\<exists>y. waitForSelector page hardLockSelector 1200 = Resolved y))"
proof -
  have a: "\<exists>b. fst (detectSignInBlocked c page w) = Inr b"
    by (rule detect_returns_boolean)
  have b: "probeHeadings page (sel # sels) acc w
             = probeHeadings page sels acc (w\<lparr>effects := effects w @ [WaitForSelector sel 600]\<rparr>)"
    if "waitForSelector page sel 600 = Rejected e"
    using that by (simp add: Let_def emit_def)
  have s: "probeHeadings page (sel # sels) acc w
             = (Inl e, w\<lparr>effects := effects w @ [WaitForSelector sel 600, TextContent sel]\<rparr>)"
    if "waitForSelector page sel 600 = Resolved (Some h)" "textContent h = Rejected e"
    using probeHeadings_stops [OF that] .
  have x: "detectSignInBlocked c page w
              = (Inr False,
                 w1\<lparr>effects := effects w1 @ [WaitForSelector sel 600, TextContent sel]\<rparr>)"
    if nf: "\<not> (compromisedModeActive w \<and> compromisedReason w = Some (js ''sign-in-blocked''))"
      and sp: "headingSelectors = pre @ sel # post"
      and pr: "probeHeadings page pre [] w = (Inr t, w1)"
      and f: "waitForSelector page sel 600 = Resolved (Some h)"
      and r: "textContent h = Rejected e"
  proof -
    have nf': "\<not> fastPath w"
      using nf by (simp add: fastPath_def)
    have "probeHeadings page headingSelectors [] w = probeHeadings page (sel # post) t w1"
      unfolding sp probeHeadings_append using pr by simp
    then have p: "probeHeadings page headingSelectors [] w
                    = (Inl e, w1\<lparr>effects := effects w1 @ [WaitForSelector sel 600, TextContent sel]\<rparr>)"
      using probeHeadings_stops [OF f r, of post t w1] by simp
    show ?thesis
      using detect_on_probe_error [OF nf' p] .
  qed
  have c: "fst (detectSignInBlocked c page w) = Inr False
            \<and> alertsSent (snd (detectSignInBlocked c page w)) = alertsSent w
            \<and> compromisedModeActive (snd (detectSignInBlocked c page w))
                = compromisedModeActive w
            \<and> compromisedReason (snd (detectSignInBlocked c page w)) = compromisedReason w
            \<and> globalStandby (snd (detectSignInBlocked c page w)) = globalStandby w"
    if nf: "\<not> (compromisedModeActive w \<and> compromisedReason w = Some (js ''sign-in-blocked''))"
      and s: "sel \<in> set headingSelectors"
      and f: "waitForSelector page sel 600 = Resolved (Some h)"
      and x: "textContent h = Rejected e"
  proof -
    have nf': "\<not> fastPath w"
      using nf by (simp add: fastPath_def)
    obtain e' where "fst (probeHeadings page headingSelectors [] w) = Inl e'"
      using probeHeadings_raises [OF s f x, of "[]" w] by blast
    then have p: "probeHeadings page headingSelectors [] w
                    = (Inl e', snd (probeHeadings page headingSelectors [] w))"
      by (simp add: prod_eq_iff)
    have d: "detectSignInBlocked c page w
               = (Inr False, snd (probeHeadings page headingSelectors [] w))"
      using detect_on_probe_error [OF nf' p] .
    show ?thesis
      unfolding d
      by (simp add: alertsSent_def probeHeadings_no_alert probeHeadings_fields)
  qed
  have k: "(\<exists>x. fst (checkAccountLocked page w) = Inl x)
        \<longleftrightarrow> (\<exists>y. waitForSelector page hardLockSelector 1200 = Resolved y)"
    by (cases "waitForSelector page hardLockSelector 1200")
       (simp_all add: checkAccountLocked_def Let_def)
  show ?thesis
    using a b s x c k by blast
qed

theorem detect_never_raises_witness:
  "waitForSelector racingPage (js ''div.text-title'') 600 = Rejected timeoutError
   \<and> probeHeadings racingPage [js ''div.text-title''] [] (freshBot (js ''a@x''))
       = (Inr [], (freshBot (js ''a@x''))
                    \<lparr>effects := [WaitForSelector (js ''div.text-title'') 600]\<rparr>)
   \<and> waitForSelector racingPage (js ''h1'') 600 = Resolved (Some detachedHeading)
   \<and> textContent detachedHeading = Rejected (Error (js ''Execution context was destroyed''))
   \<and> detectSignInBlocked healthyCollaborators racingPage (freshBot (js ''a@x''))
       = (Inr False,
          (freshBot (js ''a@x''))
            \<lparr>effects := [WaitForSelector (js ''[data-testid=\"title\"]'') 600,
                         TextContent (js ''[data-testid=\"title\"]''),
                         WaitForSelector (js ''h1'') 600,
                         TextContent (js ''h1'')]\<rparr>)"
proof -
  let ?w = "freshBot (js ''a@x'')"
  let ?title = "js ''[data-testid=\"title\"]''"
  have tm: "waitForSelector racingPage (js ''div.text-title'') 600 = Rejected timeoutError"
    by (simp add: racingPage_def pageWith_def js_def)
  note skip = detect_never_raises
                [where page = racingPage and w = "?w" and sel = "js ''div.text-title''"
                   and e = timeoutError and sels = "[]" and acc = "[]",
                 THEN conjunct2, THEN conjunct1, rule_format, OF tm]
  have p: "probeHeadings racingPage [js ''div.text-title''] [] ?w
             = (Inr [], ?w\<lparr>effects := [WaitForSelector (js ''div.text-title'') 600]\<rparr>)"
    using skip by (simp add: freshBot_def)
  have nf: "\<not> (compromisedModeActive ?w \<and> compromisedReason ?w = Some (js ''sign-in-blocked''))"
    by (simp add: freshBot_def)
  have sp: "headingSelectors
              = [?title] @ js ''h1'' # [js ''div[role=\"heading\"]'', js ''div.text-title'']"
    by (simp add: headingSelectors_def)
  have pr: "probeHeadings racingPage [?title] [] ?w
              = (Inr (js '' We can't sign you in''),
                 ?w\<lparr>effects := [WaitForSelector ?title 600, TextContent ?title]\<rparr>)"
    by (simp add: fixture_defs eval_defs)
  have f: "waitForSelector racingPage (js ''h1'') 600 = Resolved (Some detachedHeading)"
    by (simp add: racingPage_def pageWith_def js_def)
  have x: "textContent detachedHeading = Rejected (Error (js ''Execution context was destroyed''))"
    by (simp add: detachedHeading_def)
  note abort = detect_never_raises
                 [where c = healthyCollaborators and page = racingPage and w = "?w",
                  THEN conjunct2, THEN conjunct2, THEN conjunct2, THEN conjunct1, rule_format,
                  OF conjI [OF nf conjI [OF sp conjI [OF pr conjI [OF f x]]]]]
  have d: "detectSignInBlocked healthyCollaborators racingPage ?w
       = (Inr False,
          ?w\<lparr>effects := [WaitForSelector ?title 600, TextContent ?title,
                         WaitForSelector (js ''h1'') 600, TextContent (js ''h1'')]\<rparr>)"
    using abort by simp
  show ?thesis
    using tm p f x d by blast
qed

text \<open>
  Claim C6 as stated fails: no further report is needed to engage global standby. From a
  bot with no flag set, one confirmed incident sets both flags and calls
  \<open>bot.engageGlobalStandby\<close> in the same call; a second call on the resulting bot returns
  at once and engages nothing.
\<close>

theorem first_report_engages_global_standby:
  "compromisedModeActive (freshBot (js ''a@x'')) = False
   \<and> compromisedReason (freshBot (js ''a@x'')) = None
   \<and> effects (freshBot (js ''a@x'')) = []
   \<and> fst (detectSignInBlocked healthyCollaborators blockedPage (freshBot (js ''a@x''))) = Inr True
   \<and> compromisedModeActive
        (snd (detectSignInBlocked healthyCollaborators blockedPage (freshBot (js ''a@x''))))
   \<and> compromisedReason
        (snd (detectSignInBlocked healthyCollaborators blockedPage (freshBot (js ''a@x''))))
       = Some (js ''sign-in-blocked'')
   \<and> effects
        (snd (detectSignInBlocked healthyCollaborators blockedPage (freshBot (js ''a@x''))))
       = [WaitForSelector (js ''[data-testid=\"title\"]'') 600,
          WaitForSelector (js ''h1'') 600,
          TextContent (js ''h1''),
          WaitForSelector (js ''div[role=\"heading\"]'') 600,
          WaitForSelector (js ''div.text-title'') 600,
          SendIncidentAlert
            \<lparr>kind = js ''We can't sign you in (blocked)'', account = js ''a@x'',
             details = [js ''Pattern: cant-sign-in''],
             next = [js ''Manual recovery required before continuing''],
             docsUrl = js ''docs/we-cant-sign-you-in''\<rparr> Warn,
          StartCompromisedInterval,
          EngageGlobalStandby (js ''sign-in-blocked'') (js ''a@x''),
          OpenDocsTab (js ''docs/we-cant-sign-you-in'')]
   \<and> detectSignInBlocked healthyCollaborators blockedPage
        (snd (detectSignInBlocked healthyCollaborators blockedPage (freshBot (js ''a@x''))))
       = (Inr True,
          snd (detectSignInBlocked healthyCollaborators blockedPage (freshBot (js ''a@x''))))"
proof -
  let ?w1 = "snd (detectSignInBlocked healthyCollaborators blockedPage (freshBot (js ''a@x'')))"
  have a: "compromisedModeActive (freshBot (js ''a@x'')) = False"
          "compromisedReason (freshBot (js ''a@x'')) = None"
          "effects (freshBot (js ''a@x'')) = []"
    by (simp_all add: freshBot_def)
  have r: "fst (detectSignInBlocked healthyCollaborators blockedPage (freshBot (js ''a@x'')))
             = Inr True"
    by (simp add: fixture_defs eval_defs)
  have f: "compromisedModeActive ?w1" "compromisedReason ?w1 = Some (js ''sign-in-blocked'')"
    using detect_true_sets_fast_path [OF r] by (simp_all add: fastPath_def)
  have e: "effects ?w1
       = [WaitForSelector (js ''[data-testid=\"title\"]'') 600,
          WaitForSelector (js ''h1'') 600,
          TextContent (js ''h1''),
          WaitForSelector (js ''div[role=\"heading\"]'') 600,
          WaitForSelector (js ''div.text-title'') 600,
          SendIncidentAlert
            \<lparr>kind = js ''We can't sign you in (blocked)'', account = js ''a@x'',
             details = [js ''Pattern: cant-sign-in''],
             next = [js ''Manual recovery required before continuing''],
             docsUrl = js ''docs/we-cant-sign-you-in''\<rparr> Warn,
          StartCompromisedInterval,
          EngageGlobalStandby (js ''sign-in-blocked'') (js ''a@x''),
          OpenDocsTab (js ''docs/we-cant-sign-you-in'')]"
    by (simp add: fixture_defs eval_defs)
  have again: "detectSignInBlocked healthyCollaborators blockedPage ?w1 = (Inr True, ?w1)"
    using detect_true_sets_fast_path [OF r] by (simp add: detectSignInBlocked_def)
  show ?thesis
    using a r f e again by blast
qed

text \<open>
  Claim C6, amended. On the fields the detector writes, escalation is monotonic: a call
  never clears \<open>compromisedModeActive\<close>, and it leaves \<open>compromisedReason\<close> as it was or
  sets it to \<open>sign-in-blocked\<close>. There is no separate escalating report: from a bot whose
  flag is unset, a confirmed incident whose alert resolves sets both flags and, in the same
  call and in this order, starts the compromised interval, calls
  \<open>bot.engageGlobalStandby('sign-in-blocked', account)\<close> and opens the docs tab. A further
  call with both flags set returns true, changes nothing and calls nothing.
\<close>

theorem detect_escalation_is_monotone:
  "(compromisedModeActive w \<longrightarrow> compromisedModeActive (snd (detectSignInBlocked c page w)))
   \<and> (compromisedReason (snd (detectSignInBlocked c page w)) = compromisedReason w
        \<or> compromisedReason (snd (detectSignInBlocked c page w)) = Some (js ''sign-in-blocked''))
   \<and> (\<not> compromisedModeActive w
        \<and> probeHeadings page headingSelectors [] w = (Inr t, w1)
        \<and> classify SIGN_IN_BLOCK_PATTERNS (toLowerCase c t) = Some l
        \<and> sendIncidentAlert c
              (buildIncident (orElse (currentAccountEmail w) (js ''unknown'')) (Some l)
                 (getDocsUrl c (js ''we-cant-sign-you-in''))) Warn = Resolved d
        \<longrightarrow> fst (detectSignInBlocked c page w) = Inr True
            \<and> compromisedModeActive (snd (detectSignInBlocked c page w))
            \<and> compromisedReason (snd (detectSignInBlocked c page w))
                = Some (js ''sign-in-blocked'')
            \<and> effects (snd (detectSignInBlocked c page w)) =
                effects w1
                @ [SendIncidentAlert
                     (buildIncident (orElse (currentAccountEmail w) (js ''unknown'')) (Some l)
                        (getDocsUrl c (js ''we-cant-sign-you-in''))) Warn,
                   StartCompromisedInterval,
                   EngageGlobalStandby (js ''sign-in-blocked'')
                     (orElse (currentAccountEmail w) (js ''unknown''))]
                @ (case engageGlobalStandby c (js ''sign-in-blocked'')
                          (orElse (currentAccountEmail w) (js ''unknown'')) of
                     Resolved u \<Rightarrow> []
                   | Rejected e \<Rightarrow>
                       [LogError (js ''LOGIN-SECURITY'') (js ''Global standby engagement failed'')
                          (isMobile w) e])
                @ [OpenDocsTab (getDocsUrl c (js ''we-cant-sign-you-in''))]
                @ (case openDocsTab c (getDocsUrl c (js ''we-cant-sign-you-in'')) of
                     Resolved u \<Rightarrow> []
                   | Rejected e \<Rightarrow>
                       [LogError (js ''LOGIN-SECURITY'') (js ''Failed to open docs tab'')
                          (isMobile w) e]))
   \<and> (compromisedModeActive w \<and> compromisedReason w = Some (js ''sign-in-blocked'')
        \<longrightarrow> detectSignInBlocked c page w = (Inr True, w))"
proof -
  have a: "compromisedModeActive w \<longrightarrow> compromisedModeActive (snd (detectSignInBlocked c page w))"
    using detect_keeps_flag [of w c page] by blast
  have r: "compromisedReason (snd (detectSignInBlocked c page w)) = compromisedReason w
        \<or> compromisedReason (snd (detectSignInBlocked c page w)) = Some (js ''sign-in-blocked'')"
    by (rule detect_keeps_reason)
  have b: "fst (detectSignInBlocked c page w) = Inr True
            \<and> compromisedModeActive (snd (detectSignInBlocked c page w))
            \<and> compromisedReason (snd (detectSignInBlocked c page w))
                = Some (js ''sign-in-blocked'')
            \<and> effects (snd (detectSignInBlocked c page w)) =
                effects w1
                @ [SendIncidentAlert
                     (buildIncident (orElse (currentAccountEmail w) (js ''unknown'')) (Some l)
                        (getDocsUrl c (js ''we-cant-sign-you-in''))) Warn,
                   StartCompromisedInterval,
                   EngageGlobalStandby (js ''sign-in-blocked'')
                     (orElse (currentAccountEmail w) (js ''unknown''))]
                @ (case engageGlobalStandby c (js ''sign-in-blocked'')
                          (orElse (currentAccountEmail w) (js ''unknown'')) of
                     Resolved u \<Rightarrow> []
                   | Rejected e \<Rightarrow>
                       [LogError (js ''LOGIN-SECURITY'') (js ''Global standby engagement failed'')
                          (isMobile w) e])
                @ [OpenDocsTab (getDocsUrl c (js ''we-cant-sign-you-in''))]
                @ (case openDocsTab c (getDocsUrl c (js ''we-cant-sign-you-in'')) of
                     Resolved u \<Rightarrow> []
                   | Rejected e \<Rightarrow>
                       [LogError (js ''LOGIN-SECURITY'') (js ''Failed to open docs tab'')
                          (isMobile w) e])"
    if n: "\<not> compromisedModeActive w"
      and p: "probeHeadings page headingSelectors [] w = (Inr t, w1)"
      and m: "classify SIGN_IN_BLOCK_PATTERNS (toLowerCase c t) = Some l"
      and al: "sendIncidentAlert c
              (buildIncident (orElse (currentAccountEmail w) (js ''unknown'')) (Some l)
                 (getDocsUrl c (js ''we-cant-sign-you-in''))) Warn = Resolved d"
  proof -
    have nf: "\<not> fastPath w"
      using n by (simp add: fastPath_def)
    have w1: "isMobile w1 = isMobile w"
      using probeHeadings_fields(4) [of page headingSelectors "[]" w] p by simp
    show ?thesis
      unfolding detect_on_match_resolved [OF nf p m al]
      using w1
      by (simp add: afterAlert_flags afterAlert_effects split: settled.splits)
  qed
  have c: "detectSignInBlocked c page w = (Inr True, w)"
    if "compromisedModeActive w \<and> compromisedReason w = Some (js ''sign-in-blocked'')"
    using that by (simp add: detectSignInBlocked_def fastPath_def)
  show ?thesis
    using a r b c by blast
qed

theorem detect_escalation_is_monotone_witness:
  "compromisedModeActive (freshBot (js ''a@x'')) = False
   \<and> fst (detectSignInBlocked failingCollaborators blockedPage (freshBot (js ''a@x''))) = Inr True
   \<and> compromisedModeActive
        (snd (detectSignInBlocked failingCollaborators blockedPage (freshBot (js ''a@x''))))
   \<and> compromisedReason
        (snd (detectSignInBlocked failingCollaborators blockedPage (freshBot (js ''a@x''))))
       = Some (js ''sign-in-blocked'')
   \<and> EngageGlobalStandby (js ''sign-in-blocked'') (js ''a@x'')
       \<in> set (effects
                (snd (detectSignInBlocked failingCollaborators blockedPage
                        (freshBot (js ''a@x'')))))
   \<and> detectSignInBlocked failingCollaborators blockedPage compromisedBot
       = (Inr True, compromisedBot)
   \<and> compromisedModeActive
        (snd (detectSignInBlocked healthyCollaborators welcomePage compromisedBot))"
proof -
  let ?w = "freshBot (js ''a@x'')"
  have n: "\<not> compromisedModeActive ?w"
    by (simp add: freshBot_def)
  have p: "probeHeadings blockedPage headingSelectors [] ?w
              = (Inr (js '' We can't sign you in''),
                 snd (probeHeadings blockedPage headingSelectors [] ?w))"
    by (simp add: prod_eq_iff fixture_defs eval_defs)
  have m: "classify SIGN_IN_BLOCK_PATTERNS
              (toLowerCase failingCollaborators (js '' We can't sign you in''))
              = Some (js ''cant-sign-in'')"
    by (simp add: failingCollaborators_def asciiLower_def SIGN_IN_BLOCK_PATTERNS_def lits_def
          js_def canonicalize_def)
  have al: "sendIncidentAlert failingCollaborators
              (buildIncident (orElse (currentAccountEmail ?w) (js ''unknown''))
                 (Some (js ''cant-sign-in''))
                 (getDocsUrl failingCollaborators (js ''we-cant-sign-you-in''))) Warn
              = Resolved Failure"
    by (simp add: failingCollaborators_def)
  note first = detect_escalation_is_monotone
                 [THEN conjunct2, THEN conjunct2, THEN conjunct1, rule_format,
                  OF conjI [OF n conjI [OF p conjI [OF m al]]]]
  have em: "orElse (currentAccountEmail ?w) (js ''unknown'') = js ''a@x''"
    by (simp add: freshBot_def js_def)
  have eng: "EngageGlobalStandby (js ''sign-in-blocked'') (js ''a@x'')
       \<in> set (effects (snd (detectSignInBlocked failingCollaborators blockedPage ?w)))"
    using first em by simp
  have r: "fst (detectSignInBlocked healthyCollaborators blockedPage ?w) = Inr True"
    by (simp add: fixture_defs eval_defs)
  have fp: "compromisedModeActive compromisedBot
            \<and> compromisedReason compromisedBot = Some (js ''sign-in-blocked'')"
    using detect_true_sets_fast_path [OF r] by (simp add: fastPath_def compromisedBot_def)
  note again = detect_escalation_is_monotone
                 [of compromisedBot failingCollaborators blockedPage,
                  THEN conjunct2, THEN conjunct2, THEN conjunct2, rule_format, OF fp]
  note keep = detect_escalation_is_monotone
                [of compromisedBot healthyCollaborators welcomePage,
                 THEN conjunct1, rule_format, OF conjunct1 [OF fp]]
  have f: "compromisedModeActive ?w = False"
    using n by simp
  show ?thesis
    using f first eng again keep by blast
qed

section \<open>The validation gate of createBrowser\<close>












end
